theory Spec2Isabelle
  imports Main "HOL-Library.Word"
begin

section \<open>Localized diagnostic messages: the model of LocalizationFormat.cpp\<close>

text \<open>
  The file lib/Localization/LocalizationFormat.cpp stores and retrieves translated
  diagnostic messages through three backends: a serialized table (.db), a YAML list
  (.yaml) and a flat-text file (.strings).  Buffers and messages are \<open>string\<close>s, one
  \<open>char\<close> per byte.  \<open>uint32_t\<close> and \<open>unsigned\<close> loop counters and \<open>swift::DiagID\<close>
  are \<open>32 word\<close>.

  The build this model follows is the one with assertions enabled: a failed \<open>assert\<close>,
  an \<open>llvm_unreachable\<close>, the dereference of an \<open>llvm::ErrorOr\<close> that holds an error
  and an index past the end of a container all stop the program.  Each of them is a
  value of type \<open>fault\<close>, and a function that can reach one returns \<open>fault + 'a\<close>.
\<close>

datatype fault =
    ErrorOrHasError
  | OutOfBounds
  | NullTable
  | AssertionFailure
  | Unreachable

subsection \<open>llvm::StringRef and std::vector operations used by the file\<close>

abbreviation dquote :: char where "dquote \<equiv> CHR 0x22"
abbreviation backslash :: char where "backslash \<equiv> CHR 0x5C"
abbreviation CR :: char where "CR \<equiv> CHR 0x0D"
abbreviation LF :: char where "LF \<equiv> CHR 0x0A"

definition whitespace :: string where
  "whitespace = [CHR '' '', CHR 0x09, CHR 0x0A, CHR 0x0B, CHR 0x0C, CHR 0x0D]"

definition startswith :: "string \<Rightarrow> string \<Rightarrow> bool" where
  "startswith s p = (take (length p) s = p)"

text \<open>\<open>StringRef::find(Str)\<close>: the first position where \<open>p\<close> occurs, \<open>None\<close> for npos.\<close>

fun find_str :: "string \<Rightarrow> string \<Rightarrow> nat option" where
  "find_str [] p = (if p = [] then Some 0 else None)"
| "find_str (c # cs) p =
     (if startswith (c # cs) p then Some 0 else map_option Suc (find_str cs p))"

text \<open>\<open>StringRef::find_first_of(char)\<close>.\<close>

fun find_first_of :: "string \<Rightarrow> char \<Rightarrow> nat option" where
  "find_first_of [] c = None"
| "find_first_of (x # xs) c =
     (if x = c then Some 0 else map_option Suc (find_first_of xs c))"

text \<open>\<open>StringRef::ltrim(Chars)\<close>.\<close>

definition ltrim :: "string \<Rightarrow> string \<Rightarrow> string" where
  "ltrim chars s = dropWhile (\<lambda>c. c \<in> set chars) s"

text \<open>\<open>StringRef::drop_front(N)\<close> asserts \<open>size() >= N\<close>.\<close>

definition drop_front :: "nat \<Rightarrow> string \<Rightarrow> fault + string" where
  "drop_front n s = (if n \<le> length s then Inr (drop n s) else Inl AssertionFailure)"

text \<open>\<open>std::vector<std::string>::resize(n)\<close>: truncate, or pad with empty strings.\<close>

definition resize :: "nat \<Rightarrow> string list \<Rightarrow> string list" where
  "resize n xs = take n xs @ replicate (n - length xs) []"

subsection \<open>StringsLocalizationProducer::readStringsFile (lines 344-451)\<close>

text \<open>
  Lines 401-438, the scan for the end of one message.  \<open>i\<close> and \<open>n\<close> are the
  \<open>unsigned\<close> counters of the \<open>for\<close> loop; \<open>buffer[i]\<close> asserts that the index is in
  range and \<open>SmallString::pop_back\<close> needs a non-empty string.  The result is the
  message and what is left of the buffer after \<open>drop_front(i + 2).ltrim()\<close>.  Leaving
  the loop without \<open>isValid\<close> fails the assertion of line 437.
\<close>

function scanMessage :: "string \<Rightarrow> 32 word \<Rightarrow> 32 word \<Rightarrow> string \<Rightarrow> fault + (string \<times> string)" where
  "scanMessage buffer i n msg =
     (if i \<noteq> n then
        (if \<not> unat i < length buffer then Inl OutOfBounds
         else if buffer ! unat i \<noteq> dquote then
           scanMessage buffer (i + 1) n (msg @ [buffer ! unat i])
         else if \<not> 0 < i then Inl AssertionFailure
         else if buffer ! unat (i - 1) = backslash then
           (if msg = [] then Inl AssertionFailure
            else scanMessage buffer (i + 1) n (butlast msg @ [buffer ! unat i]))
         else if i + 1 < n then
           (if \<not> unat (i + 1) < length buffer then Inl OutOfBounds
            else if buffer ! unat (i + 1) = CHR '';'' then
              (case drop_front (unat (i + 2)) buffer of
                 Inl e \<Rightarrow> Inl e
               | Inr rest \<Rightarrow> Inr (msg, ltrim whitespace rest))
            else Inl Unreachable)
         else Inl Unreachable)
      else Inl AssertionFailure)"
  by pat_completeness auto
termination
proof (relation "measure (\<lambda>(buffer, i, n, msg). unat (n - i))")
  show "wf (measure (\<lambda>(buffer, i, n, msg). unat (n - i)))" by simp
next
  fix buffer :: string and i n :: "32 word" and msg :: string
  assume "i \<noteq> n"
  then have "n - i \<noteq> 0" by simp
  then have "unat (n - i - 1) < unat (n - i)" by (rule measure_unat)
  then have "unat (n - (i + 1)) < unat (n - i)" by (simp only: diff_diff_add)
  then show "((buffer, i + 1, n, msg @ [buffer ! unat i]), (buffer, i, n, msg))
      \<in> measure (\<lambda>(buffer, i, n, msg). unat (n - i))" by simp
next
  fix buffer :: string and i n :: "32 word" and msg :: string
  assume "i \<noteq> n"
  then have "n - i \<noteq> 0" by simp
  then have "unat (n - i - 1) < unat (n - i)" by (rule measure_unat)
  then have "unat (n - (i + 1)) < unat (n - i)" by (simp only: diff_diff_add)
  then show "((buffer, i + 1, n, butlast msg @ [buffer ! unat i]), (buffer, i, n, msg))
      \<in> measure (\<lambda>(buffer, i, n, msg). unat (n - i))" by simp
qed

declare scanMessage.simps [simp del]

lemma length_ltrim: "length (ltrim chars s) \<le> length s"
  by (simp add: ltrim_def length_dropWhile_le)

lemma scanMessage_rest_length:
  "scanMessage buffer i n msg = Inr (m, rest) \<Longrightarrow> length rest \<le> length buffer"
proof (induction buffer i n msg rule: scanMessage.induct)
  case (1 buffer i n msg)
  from "1.prems" show ?case
    apply (subst (asm) scanMessage.simps)
    apply (simp split: if_splits sum.splits add: drop_front_def)
    subgoal using "1.IH"(1) by simp
    subgoal using "1.IH"(2) by simp
    subgoal using length_ltrim [of whitespace "drop (unat (i + 2)) buffer"] by auto
    done
qed

text \<open>
  Lines 346-350: \<open>diagLocs\<close>, the \<open>std::map\<close> from the name of each diagnostic of
  DiagnosticsAll.def to its position.  The .def file is not part of the sources at
  hand: the list of its identifiers, in declaration order, is the parameter
  \<open>names\<close>, and \<open>LocalDiagID::NumDiags\<close> is its length.
\<close>

fun diagLocs_from :: "string list \<Rightarrow> nat \<Rightarrow> (string \<rightharpoonup> nat) \<Rightarrow> (string \<rightharpoonup> nat)" where
  "diagLocs_from [] k m = m"
| "diagLocs_from (ID # IDs) k m = diagLocs_from IDs (Suc k) (m(ID \<mapsto> k))"

definition diagLocs :: "string list \<Rightarrow> (string \<rightharpoonup> nat)" where
  "diagLocs names = diagLocs_from names 0 Map.empty"

text \<open>Lines 363-368: a comment is consumed up to and including its first \<open>*/\<close>.\<close>

definition consumeComment :: "string \<Rightarrow> fault + string" where
  "consumeComment buffer =
     (case find_str buffer ''*/'' of
        None \<Rightarrow> Inl AssertionFailure
      | Some endOfComment \<Rightarrow>
          (case drop_front (endOfComment + 2) buffer of
             Inl e \<Rightarrow> Inl e
           | Inr rest \<Rightarrow> Inr (ltrim whitespace rest)))"

text \<open>
  Lines 371-438: one translation \<open>"<id>" = "<message>";\<close>.  The result is the
  identifier, the message and the rest of the buffer.
\<close>

definition readTranslation :: "string \<Rightarrow> fault + (string \<times> string \<times> string)" where
  "readTranslation buffer =
     (if \<not> startswith buffer [dquote] then Inl AssertionFailure
      else case drop_front 1 buffer of Inl e \<Rightarrow> Inl e | Inr b1 \<Rightarrow>
        (case find_first_of b1 dquote of
           None \<Rightarrow> Inl AssertionFailure
         | Some idSize \<Rightarrow>
             (let ident = take idSize b1 in
              case drop_front (idSize + 1) b1 of Inl e \<Rightarrow> Inl e | Inr b2' \<Rightarrow>
                (let b2 = ltrim '' '' b2' in
                 if \<not> (b2 \<noteq> [] \<and> hd b2 = CHR ''='') then Inl AssertionFailure
                 else case drop_front 1 b2 of Inl e \<Rightarrow> Inl e | Inr b3' \<Rightarrow>
                   (let b3 = ltrim '' '' b3' in
                    if \<not> (b3 \<noteq> [] \<and> hd b3 = dquote) then Inl AssertionFailure
                    else case drop_front 1 b3 of Inl e \<Rightarrow> Inl e | Inr b4 \<Rightarrow>
                      (case scanMessage b4 0 (of_nat (length b4)) [] of
                         Inl e \<Rightarrow> Inl e
                       | Inr (msg, rest) \<Rightarrow> Inr (ident, msg, rest)))))))"

text \<open>
  Lines 440-449: a known identifier gets the message in its slot, an unknown one is
  reported on \<open>llvm::errs()\<close>, whose lines the model collects.
\<close>

definition storeTranslation ::
  "(string \<rightharpoonup> nat) \<Rightarrow> string \<Rightarrow> string \<Rightarrow> string list \<times> string list
     \<Rightarrow> fault + (string list \<times> string list)" where
  "storeTranslation locs ident msg st =
     (case st of (diagnostics, errs) \<Rightarrow>
        (case locs ident of
           Some loc \<Rightarrow>
             (if loc < length diagnostics then Inr (diagnostics[loc := msg], errs)
              else Inl OutOfBounds)
         | None \<Rightarrow> Inr (diagnostics, errs @ [''[!] Unknown diagnostic: '' @ ident @ [LF]])))"

lemma consumeComment_shorter:
  "buffer \<noteq> [] \<Longrightarrow> consumeComment buffer = Inr rest \<Longrightarrow> length rest < length buffer"
  using length_ltrim [of whitespace "drop (the (find_str buffer ''*/'') + 2) buffer"]
  by (auto simp: consumeComment_def drop_front_def split: option.splits if_splits)

lemma length_ltrim_drop: "length (ltrim chars (drop k s)) \<le> length s - k"
  using length_ltrim [of chars "drop k s"] by simp

lemma readTranslation_shorter:
  assumes "readTranslation buffer = Inr (ident, msg, rest)"
  shows "length rest < length buffer"
  using assms unfolding readTranslation_def Let_def drop_front_def
  apply (clarsimp split: if_splits sum.splits option.splits dest!: scanMessage_rest_length)
  subgoal for idSize
    using length_ltrim_drop [of "'' ''" "Suc (Suc idSize)" buffer]
      length_ltrim_drop [of "'' ''" "Suc 0" "ltrim '' '' (drop (Suc (Suc idSize)) buffer)"]
    by linarith
  done

text \<open>Lines 361-450: the \<open>while (!buffer.empty())\<close> loop.\<close>

function readStringsLoop ::
  "(string \<rightharpoonup> nat) \<Rightarrow> string list \<times> string list \<Rightarrow> string
     \<Rightarrow> fault + (string list \<times> string list)" where
  "readStringsLoop locs st buffer =
     (if buffer \<noteq> [] then
        (if startswith buffer ''/*'' then
           (case consumeComment buffer of
              Inl e \<Rightarrow> Inl e
            | Inr rest \<Rightarrow> readStringsLoop locs st rest)
         else
           (case readTranslation buffer of
              Inl e \<Rightarrow> Inl e
            | Inr (ident, msg, rest) \<Rightarrow>
                (case storeTranslation locs ident msg st of
                   Inl e \<Rightarrow> Inl e
                 | Inr st' \<Rightarrow> readStringsLoop locs st' rest)))
      else Inr st)"
  by pat_completeness auto
termination
proof (relation "measure (\<lambda>(locs, st, buffer). length buffer)")
  show "wf (measure (\<lambda>(locs, st, buffer). length buffer))" by simp
next
  fix locs :: "string \<rightharpoonup> nat" and st :: "string list \<times> string list"
    and buffer rest :: string
  assume "buffer \<noteq> []" and "consumeComment buffer = Inr rest"
  then have "length rest < length buffer" by (rule consumeComment_shorter)
  then show "((locs, st, rest), (locs, st, buffer)) \<in> measure (\<lambda>(locs, st, buffer). length buffer)"
    by simp
next
  fix locs :: "string \<rightharpoonup> nat" and st st' :: "string list \<times> string list"
    and buffer rest ident msg :: string and x y
  assume "readTranslation buffer = Inr x" and "(ident, y) = x" and "(msg, rest) = y"
  then have "readTranslation buffer = Inr (ident, msg, rest)" by simp
  then have "length rest < length buffer" by (rule readTranslation_shorter)
  then show "((locs, st', rest), (locs, st, buffer)) \<in> measure (\<lambda>(locs, st, buffer). length buffer)"
    by simp
qed

declare readStringsLoop.simps [simp del]

text \<open>
  Lines 344-451, the whole function: the vector is resized to \<open>NumDiags\<close> slots
  (line 354) and the loop runs over the buffer of the file.
\<close>

definition readStringsFile ::
  "string list \<Rightarrow> string \<Rightarrow> string list \<Rightarrow> fault + (string list \<times> string list)" where
  "readStringsFile names input diagnostics =
     readStringsLoop (diagLocs names) (resize (length names) diagnostics, []) input"

subsection \<open>The YAML reader (lines 53-63 and 217-272)\<close>

text \<open>
  The YAML text itself is parsed by \<open>llvm::yaml::Input\<close>, a library outside this
  file.  What \<open>readYAML\<close> sees of it is whether there is a current document and, if
  so, the sequence of its mappings, each with the scalars of the keys \<open>id\<close> and
  \<open>msg\<close>.  A document that is not a sequence has \<open>beginSequence() = 0\<close> and is
  \<open>Document []\<close>.
\<close>

datatype yaml_input = NoDocument | Document "(string \<times> string) list"

text \<open>
  Lines 53-63, \<open>ScalarEnumerationTraits<LocalDiagID>::enumeration\<close>: the first
  \<open>enumCase\<close> whose name equals the scalar gives the value; \<open>matchEnumFallback\<close>
  gives \<open>NumDiags\<close> when none does.  A \<open>LocalDiagID\<close> is the position in
  DiagnosticsAll.def, a \<open>nat\<close> here (its \<open>uint32_t\<close> representation bounds
  \<open>NumDiags\<close> in the program).
\<close>

fun enumCases :: "string list \<Rightarrow> nat \<Rightarrow> string \<Rightarrow> nat option" where
  "enumCases [] k scalar = None"
| "enumCases (ID # IDs) k scalar =
     (if scalar = ID then Some k else enumCases IDs (Suc k) scalar)"

definition enumeration :: "string list \<Rightarrow> string \<Rightarrow> nat" where
  "enumeration names scalar =
     (case enumCases names 0 scalar of Some v \<Rightarrow> v | None \<Rightarrow> length names)"

text \<open>Lines 217-223, \<open>LocalizationInput::readID\<close>.\<close>

definition readID :: "string list \<Rightarrow> string \<times> string \<Rightarrow> nat option" where
  "readID names mapping =
     (let diagID = enumeration names (fst mapping)
      in if diagID = length names then None else Some diagID)"

text \<open>
  Lines 233-257, the loop over the elements: the state is the vector \<open>Seq\<close> and the
  vector \<open>unknownIDs\<close>.  In the unknown branch the message is read into a local
  variable and only the identifier is pushed (line 252).
\<close>

fun readElements ::
  "string list \<Rightarrow> (string \<times> string) list \<Rightarrow> string list \<Rightarrow> string list
     \<Rightarrow> fault + (string list \<times> string list)" where
  "readElements names [] Seq unknownIDs = Inr (Seq, unknownIDs)"
| "readElements names (mapping # rest) Seq unknownIDs =
     (case readID names mapping of
        Some ident \<Rightarrow>
          (if ident < length Seq then readElements names rest (Seq[ident := snd mapping]) unknownIDs
           else Inl OutOfBounds)
      | None \<Rightarrow>
          (let unknownID = fst mapping; message = snd mapping
           in readElements names rest Seq (unknownIDs @ [unknownID])))"

text \<open>Lines 225-259, \<open>readYAML\<close>: the vector is resized only when \<open>count\<close> is not 0.\<close>

definition readYAML ::
  "string list \<Rightarrow> (string \<times> string) list \<Rightarrow> string list \<Rightarrow> string list
     \<Rightarrow> fault + (string list \<times> string list)" where
  "readYAML names io Seq unknownIDs =
     (let count = length io;
          Seq' = (if count \<noteq> 0 then resize (length names) Seq else Seq)
      in readElements names io Seq' unknownIDs)"

text \<open>
  Lines 261-272, \<open>operator>>\<close>: \<open>yin.unknownIDs\<close> is empty in the fresh
  \<open>LocalizationInput\<close> of line 160.
\<close>

definition read_into :: "string list \<Rightarrow> yaml_input \<Rightarrow> string list
     \<Rightarrow> fault + (string list \<times> string list)" where
  "read_into names yin diagnostics =
     (case yin of
        NoDocument \<Rightarrow> Inr (diagnostics, [])
      | Document io \<Rightarrow> readYAML names io diagnostics [])"

subsection \<open>What the file takes from outside\<close>

text \<open>
  A path of the file system is absent, present but not readable, or readable with a
  content.  \<open>llvm::sys::fs::exists\<close> and \<open>llvm::MemoryBuffer::getFile\<close> (and
  \<open>getFileOrSTDIN\<close>) read it; the latter return an \<open>ErrorOr\<close>, \<open>None\<close> for the error.
\<close>

datatype file_status = Absent | Unreadable | Readable string

definition exists_file :: "(string \<Rightarrow> file_status) \<Rightarrow> string \<Rightarrow> bool" where
  "exists_file fs p = (fs p \<noteq> Absent)"

definition getFile :: "(string \<Rightarrow> file_status) \<Rightarrow> string \<Rightarrow> string option" where
  "getFile fs p = (case fs p of Readable content \<Rightarrow> Some content | _ \<Rightarrow> None)"

text \<open>
  The environment of the file: the identifiers of DiagnosticsAll.def in declaration
  order, the file system, the YAML parser of \<open>llvm::yaml::Input\<close>, the path functions
  of \<open>llvm::sys::path\<close>, and the on-disk hash table of LLVM that the serialized
  format is built on (\<open>generator.Emit\<close> of the writer, which appends the table to the
  stream and returns its offset, and \<open>SerializedLocalizationTable::find\<close> of the
  reader, which gives the data stored for a key in a buffer whose table is at an offset,
  of length 0 when there is none).  None of them is defined in this file, so they are
  parameters of the model.  \<open>LocalDiagID::NumDiags\<close> is the length of
  \<open>DiagnosticsAll\<close>.
\<close>

record env =
  DiagnosticsAll :: "string list"
  files :: "string \<Rightarrow> file_status"
  writable :: "string \<Rightarrow> bool"
  yaml_Input :: "string \<Rightarrow> yaml_input"
  path_append :: "string \<Rightarrow> string \<Rightarrow> string"
  replace_extension :: "string \<Rightarrow> string \<Rightarrow> string"
  path_extension :: "string \<Rightarrow> string"
  generator_Emit :: "(32 word \<times> string) list \<Rightarrow> string \<Rightarrow> string \<times> 32 word"
  table_find :: "string \<Rightarrow> 32 word \<Rightarrow> 32 word \<Rightarrow> string"

text \<open>Lines 42-46: one name per diagnostic, and a last entry for \<open>NumDiags\<close>.\<close>

definition diagnosticNameStrings :: "env \<Rightarrow> string list" where
  "diagnosticNameStrings e =
     map (\<lambda>ID. '' ['' @ ID @ '']'') (DiagnosticsAll e) @ [''<not a diagnostic>'']"

subsection \<open>Little-endian offsets (llvm::support::endian)\<close>

definition write_le32 :: "32 word \<Rightarrow> string" where
  "write_le32 w =
     (let v = unat w
      in [char_of v, char_of (v div 256), char_of (v div 65536), char_of (v div 16777216)])"

definition read_le32 :: "string \<Rightarrow> 32 word" where
  "read_le32 b =
     of_nat (of_char (b ! 0) + 256 * of_char (b ! 1) + 65536 * of_char (b ! 2)
             + 16777216 * of_char (b ! 3))"

subsection \<open>The writer of the serialized format (lines 71-94)\<close>

record SerializedLocalizationWriter =
  generator :: "(32 word \<times> string) list"

definition insert_translation ::
  "SerializedLocalizationWriter \<Rightarrow> 32 word \<Rightarrow> string \<Rightarrow> SerializedLocalizationWriter" where
  "insert_translation w ident translation =
     w\<lparr>generator := generator w @ [(ident, translation)]\<rparr>"

text \<open>
  \<open>emit\<close>: the result is \<open>OS.has_error()\<close> and the bytes of the file when the stream
  could be opened.  Four zero bytes are written, the table is emitted after them, and
  the first four bytes are overwritten with the offset that \<open>Emit\<close> returned.
\<close>

definition emit ::
  "env \<Rightarrow> SerializedLocalizationWriter \<Rightarrow> string \<Rightarrow> fault + (bool \<times> string option)" where
  "emit e w filePath =
     (if path_extension e filePath \<noteq> ''.db'' then Inl AssertionFailure
      else if \<not> writable e filePath then Inr (True, None)
      else
        (let OS = write_le32 0;
             (OS', offset) = generator_Emit e (generator w) OS;
             OS'' = write_le32 offset @ drop 4 OS'
         in Inr (False, Some OS'')))"

subsection \<open>The producers (lines 96-182 and 318-342)\<close>

datatype LocalizationProducerState = NotInitialized | Initialized | FailedInitialization

text \<open>
  The three subclasses with their members.  \<open>SerializedTable\<close> is null until
  \<open>initializeImpl\<close> creates the view of the table at its offset in \<open>Buffer\<close>.
\<close>

datatype backend =
    Serialized (Buffer: string) (SerializedTable: "32 word option")
  | YAML (filePath: string) (diagnostics: "string list") (unknownIDs: "string list")
  | Strings (filePath: string) (diagnostics: "string list")

record producer =
  state :: LocalizationProducerState
  printDiagnosticNames :: bool
  backend :: backend

text \<open>The constructors of lines 130-133 and 152-155, and the one of the flat-text producer.\<close>

definition SerializedLocalizationProducer :: "string \<Rightarrow> bool \<Rightarrow> producer" where
  "SerializedLocalizationProducer buffer printNames =
     \<lparr>state = NotInitialized, printDiagnosticNames = printNames,
      backend = Serialized buffer None\<rparr>"

definition YAMLLocalizationProducer :: "string \<Rightarrow> bool \<Rightarrow> producer" where
  "YAMLLocalizationProducer path printNames =
     \<lparr>state = NotInitialized, printDiagnosticNames = printNames,
      backend = YAML path [] []\<rparr>"

definition StringsLocalizationProducer :: "string \<Rightarrow> bool \<Rightarrow> producer" where
  "StringsLocalizationProducer path printNames =
     \<lparr>state = NotInitialized, printDiagnosticNames = printNames,
      backend = Strings path []\<rparr>"

text \<open>
  \<open>initializeImpl\<close> of the three subclasses (lines 135-142, 157-164, 318-323).
  \<open>FileBufOrErr->get()\<close> is applied to the \<open>ErrorOr\<close> without a test.  The four
  bytes of the offset are read from the start of the buffer, past its end when it is
  shorter; the view that \<open>Create\<close> makes of the table is kept as its offset.
\<close>

fun initializeImpl :: "env \<Rightarrow> backend \<Rightarrow> fault + (bool \<times> backend)" where
  "initializeImpl e (Serialized buffer table) =
     (if length buffer < 4 then Inl OutOfBounds
      else
        (let tableOffset = read_le32 buffer
         in Inr (True, Serialized buffer (Some tableOffset))))"
| "initializeImpl e (YAML path diags unknown) =
     (case getFile (files e) path of
        None \<Rightarrow> Inl ErrorOrHasError
      | Some document \<Rightarrow>
          (case read_into (DiagnosticsAll e) (yaml_Input e document) diags of
             Inl f \<Rightarrow> Inl f
           | Inr (diags', unknown') \<Rightarrow> Inr (True, YAML path diags' unknown')))"
| "initializeImpl e (Strings path diags) =
     (case getFile (files e) path of
        None \<Rightarrow> Inl ErrorOrHasError
      | Some document \<Rightarrow>
          (case readStringsFile (DiagnosticsAll e) document diags of
             Inl f \<Rightarrow> Inl f
           | Inr (diags', errs) \<Rightarrow> Inr (True, Strings path diags')))"

text \<open>Lines 96-104.\<close>

definition initializeIfNeeded :: "env \<Rightarrow> producer \<Rightarrow> fault + producer" where
  "initializeIfNeeded e p =
     (if state p \<noteq> NotInitialized then Inr p
      else
        (case initializeImpl e (backend p) of
           Inl f \<Rightarrow> Inl f
         | Inr (ok, b) \<Rightarrow>
             (if ok then Inr (p\<lparr>backend := b, state := Initialized\<rparr>)
              else Inr (p\<lparr>backend := b, state := FailedInitialization\<rparr>))))"

text \<open>\<open>getMessage\<close> of the three subclasses (lines 144-150, 166-168, 325-328).\<close>

fun getMessage :: "env \<Rightarrow> backend \<Rightarrow> 32 word \<Rightarrow> fault + string" where
  "getMessage e (Serialized buffer table) ident =
     (case table of
        None \<Rightarrow> Inl NullTable
      | Some tableOffset \<Rightarrow>
          (let val = table_find e buffer tableOffset ident
           in if length val = 0 then Inr [] else Inr val))"
| "getMessage e (YAML path diags unknown) ident =
     (if unat ident < length diags then Inr (diags ! unat ident) else Inl OutOfBounds)"
| "getMessage e (Strings path diags) ident =
     (if unat ident < length diags then Inr (diags ! unat ident) else Inl OutOfBounds)"

text \<open>Lines 106-124.  The result is the message returned and the producer after the call.\<close>

definition getMessageOr :: "env \<Rightarrow> producer \<Rightarrow> 32 word \<Rightarrow> string \<Rightarrow> fault + (string \<times> producer)" where
  "getMessageOr e p ident defaultMessage =
     (case initializeIfNeeded e p of
        Inl f \<Rightarrow> Inl f
      | Inr p' \<Rightarrow>
          (if state p' = FailedInitialization then Inr (defaultMessage, p')
           else
             (case getMessage e (backend p') ident of
                Inl f \<Rightarrow> Inl f
              | Inr localizedMessage \<Rightarrow>
                  (if localizedMessage = [] then Inr (defaultMessage, p')
                   else if printDiagnosticNames p' then
                     (if unat ident < length (diagnosticNameStrings e)
                      then Inr (localizedMessage @ diagnosticNameStrings e ! unat ident, p')
                      else Inl OutOfBounds)
                   else Inr (localizedMessage, p')))))"

text \<open>
  Lines 177-181 and 337-341, the loop of \<open>forEachAvailable\<close>: \<open>i\<close> and \<open>n\<close> are
  \<open>uint32_t\<close>, and the calls of the callback are collected in order.
\<close>

function forEachLoop ::
  "string list \<Rightarrow> 32 word \<Rightarrow> 32 word \<Rightarrow> (32 word \<times> string) list
     \<Rightarrow> fault + (32 word \<times> string) list" where
  "forEachLoop diags i n calls =
     (if i \<noteq> n then
        (if \<not> unat i < length diags then Inl OutOfBounds
         else
           (let translation = diags ! unat i
            in forEachLoop diags (i + 1) n
                 (if translation \<noteq> [] then calls @ [(i, translation)] else calls)))
      else Inr calls)"
  by pat_completeness auto
termination
proof (relation "measure (\<lambda>(diags, i, n, calls). unat (n - i))")
  show "wf (measure (\<lambda>(diags, i, n, calls). unat (n - i)))" by simp
next
  fix diags :: "string list" and i n :: "32 word" and calls calls' :: "(32 word \<times> string) list"
  assume "i \<noteq> n"
  then have "n - i \<noteq> 0" by simp
  then have "unat (n - i - 1) < unat (n - i)" by (rule measure_unat)
  then have "unat (n - (i + 1)) < unat (n - i)" by (simp only: diff_diff_add)
  then show "((diags, i + 1, n, calls'), (diags, i, n, calls))
      \<in> measure (\<lambda>(diags, i, n, calls). unat (n - i))" by simp
qed

declare forEachLoop.simps [simp del]

text \<open>
  Lines 170-182 and 330-342: \<open>forEachAvailable\<close> of the YAML and of the flat-text
  producer, the two overrides this file defines; both read the member
  \<open>diagnostics\<close>.  The result is the list of the calls of the callback and the
  producer after the call.  The serialized producer has no member \<open>diagnostics\<close> and
  no override in this file: what is proved of the calls is stated for the other two.
\<close>

definition forEachAvailable ::
  "env \<Rightarrow> producer \<Rightarrow> fault + ((32 word \<times> string) list \<times> producer)" where
  "forEachAvailable e p =
     (case initializeIfNeeded e p of
        Inl f \<Rightarrow> Inl f
      | Inr p' \<Rightarrow>
          (if state p' = FailedInitialization then Inr ([], p')
           else
             (let diags = diagnostics (backend p')
              in case forEachLoop diags 0 (of_nat (length diags)) [] of
                   Inl f \<Rightarrow> Inl f
                 | Inr calls \<Rightarrow> Inr (calls, p'))))"

subsection \<open>The choice of the producer (lines 184-215)\<close>

text \<open>
  The calls to the file system are effects of \<open>producerFor\<close>: the model returns them,
  in order, with the result.  \<open>None\<close> is the null \<open>unique_ptr\<close>.
\<close>

datatype fs_call = Exists string | GetFile string

definition producerFor ::
  "env \<Rightarrow> string \<Rightarrow> string \<Rightarrow> bool \<Rightarrow> producer option \<times> fs_call list" where
  "producerFor e locale path printNames =
     (let filePath = replace_extension e (path_append e path locale) ''.db''
      in if exists_file (files e) filePath then
           (case getFile (files e) filePath of
              Some file \<Rightarrow>
                (Some (SerializedLocalizationProducer file printNames),
                 [Exists filePath, GetFile filePath])
            | None \<Rightarrow> (None, [Exists filePath, GetFile filePath]))
         else
           (let yamlPath = replace_extension e filePath ''.yaml''
            in if exists_file (files e) yamlPath then
                 (Some (YAMLLocalizationProducer yamlPath printNames),
                  [Exists filePath, Exists yamlPath])
               else
                 (let stringsPath = replace_extension e yamlPath ''.strings''
                  in if exists_file (files e) stringsPath then
                       (Some (StringsLocalizationProducer stringsPath printNames),
                        [Exists filePath, Exists yamlPath, Exists stringsPath])
                     else (None, [Exists filePath, Exists yamlPath, Exists stringsPath]))))"

subsection \<open>DefToYAMLConverter::convert (lines 274-295)\<close>

text \<open>Lines 282-292: the characters of one message, written one by one.\<close>

fun escapeYAML :: "string \<Rightarrow> string" where
  "escapeYAML [] = []"
| "escapeYAML (c # cs) =
     (if c = dquote then [backslash, dquote]
      else if c = backslash then [backslash, backslash]
      else [c]) @ escapeYAML cs"

text \<open>
  Lines 275-294: the loop over \<open>swift::indices(IDs)\<close>, appending to the stream
  \<open>out\<close>.  \<open>IDs[i]\<close> and \<open>Messages[i]\<close> are checked array accesses.
\<close>

fun convertYAML_loop :: "string list \<Rightarrow> string list \<Rightarrow> nat list \<Rightarrow> string \<Rightarrow> fault + string" where
  "convertYAML_loop IDs Messages [] out = Inr out"
| "convertYAML_loop IDs Messages (i # rest) out =
     (if \<not> (i < length IDs \<and> i < length Messages) then Inl OutOfBounds
      else
        (let out1 = out @ ''- id: '' @ IDs ! i @ [LF];
             msg = Messages ! i;
             out2 = out1 @ ''  msg: '' @ [dquote];
             out3 = out2 @ escapeYAML msg;
             out4 = out3 @ [dquote, CR, LF]
         in convertYAML_loop IDs Messages rest out4))"

definition DefToYAMLConverter_convert :: "string list \<Rightarrow> string list \<Rightarrow> string \<Rightarrow> fault + string" where
  "DefToYAMLConverter_convert IDs Messages out =
     convertYAML_loop IDs Messages [0..<length IDs] out"

subsection \<open>DefToStringsConverter::convert (lines 297-316)\<close>

text \<open>Lines 306-312: a backslash is written before each double quote of the message.\<close>

fun escapeStrings :: "string \<Rightarrow> string" where
  "escapeStrings [] = []"
| "escapeStrings (c # cs) =
     (if c = dquote then [backslash, c] else [c]) @ escapeStrings cs"

text \<open>Lines 299-315: one line \<open>"<id>" = "<msg>";\<close> per identifier, ended by CR LF.\<close>

fun convertStrings_loop :: "string list \<Rightarrow> string list \<Rightarrow> nat list \<Rightarrow> string \<Rightarrow> fault + string" where
  "convertStrings_loop IDs Messages [] out = Inr out"
| "convertStrings_loop IDs Messages (i # rest) out =
     (if \<not> (i < length IDs \<and> i < length Messages) then Inl OutOfBounds
      else
        (let out1 = out @ [dquote] @ IDs ! i @ [dquote];
             out2 = out1 @ '' = '';
             msg = Messages ! i;
             out3 = out2 @ [dquote];
             out4 = out3 @ escapeStrings msg;
             out5 = out4 @ [dquote] @ '';'' @ [CR, LF]
         in convertStrings_loop IDs Messages rest out5))"

definition DefToStringsConverter_convert :: "string list \<Rightarrow> string list \<Rightarrow> string \<Rightarrow> fault + string" where
  "DefToStringsConverter_convert IDs Messages out =
     convertStrings_loop IDs Messages [0..<length IDs] out"

subsection \<open>A small environment for running the model\<close>

text \<open>
  Three diagnostics \<open>A\<close>, \<open>B\<close>, \<open>C\<close>; a flat-text file with an escaped quote, a
  flat-text file with a quote that nothing follows up, a YAML file with one record whose
  name is not a diagnostic, an empty YAML file, a serialized file that exists and cannot
  be opened, and one that can.  The table of this environment
  stores each entry as its key (four bytes, little-endian), its data with the byte 1
  before each byte, and the byte 0; the offset points to the first entry.
\<close>

definition en_strings :: string where
  "en_strings = [dquote] @ ''A'' @ [dquote] @ '' = '' @ [dquote] @ ''Hello ''
     @ [backslash, dquote] @ ''World'' @ [backslash, dquote] @ [dquote] @ '';'' @ [CR, LF]
     @ [dquote] @ ''C'' @ [dquote] @ '' = '' @ [dquote] @ ''Bye'' @ [dquote] @ '';'' @ [CR, LF]"

definition demo_yaml :: "string \<Rightarrow> yaml_input" where
  "demo_yaml text =
     (if text = ''de'' then Document [(''C'', ''Tschau''), (''Z'', ''Weg''), (''A'', ''Hallo'')]
      else NoDocument)"

fun encode_data :: "string \<Rightarrow> string" where
  "encode_data [] = [CHR 0x00]"
| "encode_data (c # cs) = CHR 0x01 # c # encode_data cs"

fun decode_data :: "string \<Rightarrow> string \<times> string" where
  "decode_data [] = ([], [])"
| "decode_data [m] = ([], [])"
| "decode_data (m # c # rest) =
     (if m = CHR 0x01 then (case decode_data rest of (d, r) \<Rightarrow> (c # d, r))
      else ([], c # rest))"

fun encode_table :: "(32 word \<times> string) list \<Rightarrow> string" where
  "encode_table [] = []"
| "encode_table ((k, v) # entries) = write_le32 k @ encode_data v @ encode_table entries"

lemma decode_data_length: "length (snd (decode_data s)) \<le> length s"
  by (induction s rule: decode_data.induct) (auto split: prod.splits)

function lookup_table :: "string \<Rightarrow> 32 word \<Rightarrow> string" where
  "lookup_table buffer key =
     (if length buffer < 4 then []
      else
        (case decode_data (drop 4 buffer) of
           (d, r) \<Rightarrow> if read_le32 buffer = key then d else lookup_table r key))"
  by pat_completeness auto
termination
proof (relation "measure (\<lambda>(buffer, key). length buffer)")
  show "wf (measure (\<lambda>(buffer, key). length buffer))" by simp
next
  fix buffer :: string and key :: "32 word" and d r :: string
  assume "\<not> length buffer < 4" and "(d, r) = decode_data (drop 4 buffer)"
  then have "length r \<le> length buffer - 4"
    using decode_data_length [of "drop 4 buffer"] by (simp add: prod_eq_iff)
  with \<open>\<not> length buffer < 4\<close>
  show "((r, key), (buffer, key)) \<in> measure (\<lambda>(buffer, key). length buffer)" by simp
qed

declare lookup_table.simps [simp del]

definition xx_strings :: string where
  "xx_strings = [dquote] @ ''A'' @ [dquote] @ '' = '' @ [dquote] @ ''x'' @ [dquote] @ ''y;''"

definition ja_db :: string where
  "ja_db = write_le32 4 @ encode_table [(0, ''Hai''), (1, []), (2, ''Iie'')]"

definition demo_files :: "string \<Rightarrow> file_status" where
  "demo_files p =
     (if p = ''loc/en.strings'' then Readable en_strings
      else if p = ''loc/de.yaml'' then Readable ''de''
      else if p = ''loc/it.yaml'' then Readable []
      else if p = ''loc/fr.db'' then Unreadable
      else if p = ''loc/fr.yaml'' then Readable ''de''
      else if p = ''loc/ja.db'' then Readable ja_db
      else if p = ''loc/xx.strings'' then Readable xx_strings
      else Absent)"

definition demo_env :: env where
  "demo_env =
     \<lparr>DiagnosticsAll = [''A'', ''B'', ''C''],
      files = demo_files,
      writable = (\<lambda>p. True),
      yaml_Input = demo_yaml,
      path_append = (\<lambda>p component. p @ ''/'' @ component),
      replace_extension = (\<lambda>p ext. takeWhile (\<lambda>c. c \<noteq> CHR ''.'') p @ ext),
      path_extension = (\<lambda>p. dropWhile (\<lambda>c. c \<noteq> CHR ''.'') p),
      generator_Emit = (\<lambda>entries OS. (OS @ encode_table entries, of_nat (length OS))),
      table_find = (\<lambda>buffer tableOffset key. lookup_table (drop (unat tableOffset) buffer) key)\<rparr>"

section \<open>Notions of the properties\<close>

subsection \<open>The producers of two runs\<close>

definition en_producer :: producer where
  "en_producer = \<lparr>state = Initialized, printDiagnosticNames = False,
     backend = Strings ''loc/en.strings''
       [''Hello '' @ [dquote] @ ''World'' @ [dquote], [], ''Bye'']\<rparr>"

definition failed_producer :: producer where
  "failed_producer = \<lparr>state = FailedInitialization, printDiagnosticNames = False,
     backend = YAML ''loc/de.yaml'' [] []\<rparr>"

subsection \<open>The path of the serialized file of a locale\<close>

definition dbPath :: "env \<Rightarrow> string \<Rightarrow> string \<Rightarrow> string" where
  "dbPath e locale path = replace_extension e (path_append e path locale) ''.db''"

subsection \<open>The catalog of a sequence of records\<close>

text \<open>
  What the catalog and the list of unknown identifiers should be, record by record: a
  record whose name is a diagnostic stores its message in the slot of that diagnostic,
  over \<open>NumDiags\<close> empty slots; the others give their names.
\<close>

definition store_known :: "string list \<Rightarrow> string list \<Rightarrow> string \<times> string \<Rightarrow> string list" where
  "store_known names Seq mapping =
     (case readID names mapping of Some ident \<Rightarrow> Seq[ident := snd mapping] | None \<Rightarrow> Seq)"

definition catalog_of :: "string list \<Rightarrow> (string \<times> string) list \<Rightarrow> string list" where
  "catalog_of names io = foldl (store_known names) (replicate (length names) []) io"

definition unknown_of :: "string list \<Rightarrow> (string \<times> string) list \<Rightarrow> string list" where
  "unknown_of names io = map fst (filter (\<lambda>mapping. readID names mapping = None) io)"

subsection \<open>The records of the YAML serializer\<close>

text \<open>
  The record of one diagnostic in the words of the specification, with the line
  terminators the code writes, and the test that every LF of a text follows a CR.
\<close>

definition escaped_char :: "char \<Rightarrow> string" where
  "escaped_char c =
     (if c = dquote then [backslash, dquote]
      else if c = backslash then [backslash, backslash]
      else [c])"

definition yaml_record :: "string \<Rightarrow> string \<Rightarrow> string" where
  "yaml_record ident msg =
     ''- id: '' @ ident @ [LF]
     @ ''  msg: '' @ [dquote] @ concat (map escaped_char msg) @ [dquote, CR, LF]"

fun crlf_from :: "char option \<Rightarrow> string \<Rightarrow> bool" where
  "crlf_from prev [] = True"
| "crlf_from prev (c # cs) =
     (if c = LF then prev = Some CR \<and> crlf_from (Some c) cs else crlf_from (Some c) cs)"

definition every_line_ends_crlf :: "string \<Rightarrow> bool" where
  "every_line_ends_crlf s = crlf_from None s"

subsection \<open>The calls of an enumeration\<close>

text \<open>
  The calls expected from a vector: one per position of \<open>ks\<close> whose entry is not
  empty, in the order of \<open>ks\<close>, with the position as identifier and the entry as text.
\<close>

definition visits :: "string list \<Rightarrow> nat list \<Rightarrow> (32 word \<times> string) list" where
  "visits diags ks = map (\<lambda>k. (of_nat k, diags ! k)) (filter (\<lambda>k. diags ! k \<noteq> []) ks)"

subsection \<open>The message of a raw text\<close>

text \<open>
  The message accumulated from the raw characters before the closing quote: a double
  quote replaces the character accumulated before it, any other character is added.
  In \<open>escaped_from\<close> every double quote of the raw text has a backslash right
  before it; \<open>prev\<close> is the character before the text, if any.
\<close>

definition push_char :: "string \<Rightarrow> char \<Rightarrow> string" where
  "push_char msg c = (if c = dquote then butlast msg @ [c] else msg @ [c])"

definition accumulated :: "string \<Rightarrow> string" where
  "accumulated raw = foldl push_char [] raw"

fun escaped_from :: "char option \<Rightarrow> string \<Rightarrow> bool" where
  "escaped_from prev [] = True"
| "escaped_from prev (c # cs) =
     (if c = dquote then prev = Some backslash \<and> escaped_from (Some c) cs
      else escaped_from (Some c) cs)"

definition last_of :: "string \<Rightarrow> char option" where
  "last_of s = (if s = [] then None else Some (last s))"

subsection \<open>The contract of the on-disk index\<close>

text \<open>
  Modelled from the spec: the associative on-disk index of the binary table.  Its code
  is not in the sources at hand: \<open>generator.Emit\<close> is
  \<open>llvm::OnDiskChainedHashTableGenerator::Emit\<close>, \<open>SerializedLocalizationTable\<close> is
  LLVM's on-disk hash table, and their reader and writer traits are in
  LocalizationFormat.h.  The specification says that the writer ``serializes all
  entries into an associative on-disk index keyed by the raw integer identifier
  value'', after a placeholder of four bytes that is then overwritten with ``the
  index's actual byte offset'', and that a lookup ``probes the index'', with an empty
  result ``if no entry or a zero-length entry is found''.  In the model: for entries
  with distinct identifiers, the index that \<open>generator_Emit\<close> appends to a header of
  four bytes, read by \<open>table_find\<close> in the file whose header holds the offset
  returned, gives for every key the data inserted under it, and data of length 0 for a
  key that was not inserted.
\<close>

definition index_contract :: "env \<Rightarrow> bool" where
  "index_contract e \<longleftrightarrow>
     (\<forall>entries. distinct (map fst entries) \<longrightarrow>
        (case generator_Emit e entries (write_le32 0) of
           (OS', offset) \<Rightarrow>
             4 \<le> length OS'
             \<and> (\<forall>key. table_find e (write_le32 offset @ drop 4 OS') offset key
                    = (case map_of entries key of Some data \<Rightarrow> data | None \<Rightarrow> []))))"

text \<open>
  All the insertions of a list of pairs into a fresh writer, and the pairs of a
  complete catalog: position \<open>k\<close> of the catalog is the message of the identifier
  \<open>k\<close>.
\<close>

definition insert_all :: "(32 word \<times> string) list \<Rightarrow> SerializedLocalizationWriter" where
  "insert_all entries =
     foldl (\<lambda>w (ident, translation). insert_translation w ident translation)
       \<lparr>generator = []\<rparr> entries"

definition catalog_entries :: "string list \<Rightarrow> (32 word \<times> string) list" where
  "catalog_entries catalog = map (\<lambda>k. (of_nat k, catalog ! k)) [0..<length catalog]"

section \<open>Properties\<close>

subsection \<open>Runs of the small environment\<close>

lemma en_initialize:
  "initializeIfNeeded demo_env (StringsLocalizationProducer ''loc/en.strings'' False)
     = Inr en_producer"
  by code_simp

lemma en_lookup_B:
  "getMessageOr demo_env (StringsLocalizationProducer ''loc/en.strings'' False) 1 ''default-B''
     = Inr (''default-B'', en_producer)"
  by code_simp

lemma en_forEach:
  "forEachAvailable demo_env (StringsLocalizationProducer ''loc/en.strings'' False)
     = Inr ([(0, ''Hello '' @ [dquote] @ ''World'' @ [dquote]), (2, ''Bye'')], en_producer)"
  by code_simp

subsection \<open>The state of a producer\<close>





text \<open>
  Claim C7.  The state of a producer only moves forward.  A producer that is no longer
  \<open>NotInitialized\<close> is returned unchanged by \<open>initializeIfNeeded\<close>, so nothing is
  initialized twice and \<open>Initialized\<close> and \<open>FailedInitialization\<close> are terminal.  When
  \<open>initializeIfNeeded\<close> returns, the state is not \<open>NotInitialized\<close>; from
  \<open>NotInitialized\<close> it is \<open>Initialized\<close> or \<open>FailedInitialization\<close>.  The producer
  that \<open>getMessageOr\<close> and \<open>forEachAvailable\<close> leave behind is the one
  \<open>initializeIfNeeded\<close> gives.  In the state \<open>FailedInitialization\<close> every
  \<open>getMessageOr\<close> returns the default message it was given.
\<close>

theorem state_only_moves_forward:
  "(state p \<noteq> NotInitialized \<longrightarrow> initializeIfNeeded e p = Inr p)
   \<and> (initializeIfNeeded e p = Inr p' \<longrightarrow>
        state p' \<noteq> NotInitialized
        \<and> (state p = NotInitialized \<longrightarrow> state p' = Initialized \<or> state p' = FailedInitialization)
        \<and> (state p \<noteq> NotInitialized \<longrightarrow> p' = p))
   \<and> (getMessageOr e p ident d = Inr (m, q) \<longrightarrow> initializeIfNeeded e p = Inr q)
   \<and> (forEachAvailable e p = Inr (calls, r) \<longrightarrow> initializeIfNeeded e p = Inr r)
   \<and> (state p = FailedInitialization \<longrightarrow> getMessageOr e p ident d = Inr (d, p))"
proof -
  have a: "state p \<noteq> NotInitialized \<longrightarrow> initializeIfNeeded e p = Inr p"
    by (simp add: initializeIfNeeded_def)
  have b: "initializeIfNeeded e p = Inr p' \<longrightarrow>
        state p' \<noteq> NotInitialized
        \<and> (state p = NotInitialized \<longrightarrow> state p' = Initialized \<or> state p' = FailedInitialization)
        \<and> (state p \<noteq> NotInitialized \<longrightarrow> p' = p)"
    by (auto simp: initializeIfNeeded_def split: if_splits sum.splits)
  have c: "getMessageOr e p ident d = Inr (m, q) \<longrightarrow> initializeIfNeeded e p = Inr q"
    by (auto simp: getMessageOr_def split: if_splits sum.splits)
  have d: "forEachAvailable e p = Inr (calls, r) \<longrightarrow> initializeIfNeeded e p = Inr r"
    by (auto simp: forEachAvailable_def Let_def split: if_splits sum.splits)
  have e: "state p = FailedInitialization \<longrightarrow> getMessageOr e p ident d = Inr (d, p)"
    by (simp add: getMessageOr_def initializeIfNeeded_def)
  from a b c d e show ?thesis by blast
qed

theorem state_only_moves_forward_witness:
  "state (StringsLocalizationProducer ''loc/en.strings'' False) = NotInitialized
   \<and> initializeIfNeeded demo_env (StringsLocalizationProducer ''loc/en.strings'' False)
        = Inr en_producer
   \<and> getMessageOr demo_env (StringsLocalizationProducer ''loc/en.strings'' False) 1 ''default-B''
        = Inr (''default-B'', en_producer)
   \<and> forEachAvailable demo_env (StringsLocalizationProducer ''loc/en.strings'' False)
        = Inr ([(0, ''Hello '' @ [dquote] @ ''World'' @ [dquote]), (2, ''Bye'')], en_producer)
   \<and> state en_producer = Initialized
   \<and> initializeIfNeeded demo_env en_producer = Inr en_producer
   \<and> state failed_producer = FailedInitialization
   \<and> initializeIfNeeded demo_env failed_producer = Inr failed_producer
   \<and> getMessageOr demo_env failed_producer 2 ''default-C'' = Inr (''default-C'', failed_producer)"
  using state_only_moves_forward [of "StringsLocalizationProducer ''loc/en.strings'' False"
          demo_env en_producer 1 "''default-B''" "''default-B''" en_producer
          "[(0, ''Hello '' @ [dquote] @ ''World'' @ [dquote]), (2, ''Bye'')]" en_producer]
    state_only_moves_forward [of en_producer demo_env en_producer]
    state_only_moves_forward [of failed_producer demo_env failed_producer 2 "''default-C''"]
    en_initialize en_lookup_B en_forEach
  by (simp add: StringsLocalizationProducer_def en_producer_def failed_producer_def)

subsection \<open>The choice of the producer\<close>

lemma ja_producerFor:
  "producerFor demo_env ''ja'' ''loc'' True
     = (Some (SerializedLocalizationProducer ja_db True), [Exists ''loc/ja.db'', GetFile ''loc/ja.db''])"
  by (simp add: producerFor_def demo_env_def demo_files_def exists_file_def getFile_def Let_def)

lemma de_producerFor:
  "producerFor demo_env ''de'' ''loc'' False
     = (Some (YAMLLocalizationProducer ''loc/de.yaml'' False),
        [Exists ''loc/de.db'', Exists ''loc/de.yaml''])"
  by (simp add: producerFor_def demo_env_def demo_files_def exists_file_def getFile_def Let_def)

text \<open>
  Claim C10.  With \<open>db\<close> the path of the .db file of the locale: when \<open>db\<close> exists
  and cannot be opened, \<open>producerFor\<close> returns no producer and its only calls to the file
  system are the two on \<open>db\<close>; whenever \<open>db\<close> exists the result is the serialized
  producer of its content or none, with the same two calls; and a YAML or flat-text
  producer is returned only when \<open>db\<close> does not exist.
\<close>

theorem producerFor_db_blocks_text_formats:
  "(exists_file (files e) (dbPath e locale path) \<and> getFile (files e) (dbPath e locale path) = None \<longrightarrow>
      producerFor e locale path printNames
        = (None, [Exists (dbPath e locale path), GetFile (dbPath e locale path)]))
   \<and> (exists_file (files e) (dbPath e locale path) \<longrightarrow>
        producerFor e locale path printNames
          = (map_option (\<lambda>file. SerializedLocalizationProducer file printNames)
               (getFile (files e) (dbPath e locale path)),
             [Exists (dbPath e locale path), GetFile (dbPath e locale path)]))
   \<and> (producerFor e locale path printNames = (Some q, calls) \<and>
        (is_YAML (backend q) \<or> is_Strings (backend q)) \<longrightarrow>
        \<not> exists_file (files e) (dbPath e locale path))"
  by (auto simp: producerFor_def dbPath_def Let_def SerializedLocalizationProducer_def
        YAMLLocalizationProducer_def StringsLocalizationProducer_def
      split: option.splits if_splits)

theorem producerFor_db_blocks_text_formats_witness:
  "exists_file (files demo_env) (dbPath demo_env ''fr'' ''loc'')
   \<and> getFile (files demo_env) (dbPath demo_env ''fr'' ''loc'') = None
   \<and> exists_file (files demo_env) ''loc/fr.yaml''
   \<and> producerFor demo_env ''fr'' ''loc'' False = (None, [Exists ''loc/fr.db'', GetFile ''loc/fr.db''])
   \<and> exists_file (files demo_env) (dbPath demo_env ''ja'' ''loc'')
   \<and> producerFor demo_env ''ja'' ''loc'' True
        = (Some (SerializedLocalizationProducer ja_db True),
           [Exists ''loc/ja.db'', GetFile ''loc/ja.db''])
   \<and> producerFor demo_env ''de'' ''loc'' False
        = (Some (YAMLLocalizationProducer ''loc/de.yaml'' False),
           [Exists ''loc/de.db'', Exists ''loc/de.yaml''])
   \<and> is_YAML (backend (YAMLLocalizationProducer ''loc/de.yaml'' False))
   \<and> \<not> exists_file (files demo_env) (dbPath demo_env ''de'' ''loc'')"
proof -
  have paths: "dbPath demo_env ''fr'' ''loc'' = ''loc/fr.db''"
    "dbPath demo_env ''de'' ''loc'' = ''loc/de.db''"
    "dbPath demo_env ''ja'' ''loc'' = ''loc/ja.db''"
    by (simp_all add: dbPath_def demo_env_def)
  have fs: "exists_file (files demo_env) ''loc/fr.db''"
    "getFile (files demo_env) ''loc/fr.db'' = None"
    "exists_file (files demo_env) ''loc/fr.yaml''"
    "exists_file (files demo_env) ''loc/ja.db''"
    "getFile (files demo_env) ''loc/ja.db'' = Some ja_db"
    by (simp_all add: demo_env_def demo_files_def exists_file_def getFile_def)
  show ?thesis
    using producerFor_db_blocks_text_formats [of demo_env "''fr''" "''loc''" False]
      producerFor_db_blocks_text_formats [of demo_env "''ja''" "''loc''" True]
      producerFor_db_blocks_text_formats [of demo_env "''de''" "''loc''" False
         "YAMLLocalizationProducer ''loc/de.yaml'' False"
         "[Exists ''loc/de.db'', Exists ''loc/de.yaml'']"]
      paths fs de_producerFor
    by (auto simp: YAMLLocalizationProducer_def)
qed

subsection \<open>The YAML reader and the size of the vector\<close>

lemma readElements_length:
  "readElements names io Seq unknown = Inr (Seq', unknown') \<Longrightarrow> length Seq' = length Seq"
  by (induction names io Seq unknown rule: readElements.induct)
     (auto split: option.splits if_splits simp: Let_def)

lemma length_resize: "length (resize n xs) = n"
  by (simp add: resize_def)

text \<open>
  Claim C9.  \<open>readYAML\<close> gives the vector \<open>NumDiags\<close> slots only when the sequence has
  an element; otherwise its length is what it was.  A YAML producer built on a readable
  file with no document or with an empty sequence is initialized with an empty vector,
  and \<open>getMessage\<close>, hence \<open>getMessageOr\<close>, is out of bounds for every identifier.
\<close>

theorem yaml_without_records_is_out_of_range:
  "(readYAML names io Seq unknown = Inr (Seq', unknown') \<longrightarrow>
      length Seq' = (if io = [] then length Seq else length names))
   \<and> (getFile (files e) path = Some document
        \<and> (yaml_Input e document = NoDocument \<or> yaml_Input e document = Document []) \<longrightarrow>
        initializeIfNeeded e (YAMLLocalizationProducer path printNames)
          = Inr \<lparr>state = Initialized, printDiagnosticNames = printNames,
                 backend = YAML path [] []\<rparr>
        \<and> getMessage e (YAML path [] []) ident = Inl OutOfBounds
        \<and> getMessageOr e (YAMLLocalizationProducer path printNames) ident d = Inl OutOfBounds)"
proof -
  have len: "readYAML names io Seq unknown = Inr (Seq', unknown') \<longrightarrow>
      length Seq' = (if io = [] then length Seq else length names)"
    by (auto simp: readYAML_def Let_def length_resize dest: readElements_length)
  have init: "initializeIfNeeded e (YAMLLocalizationProducer path printNames)
          = Inr \<lparr>state = Initialized, printDiagnosticNames = printNames,
                 backend = YAML path [] []\<rparr>"
    if "getFile (files e) path = Some document"
      and "yaml_Input e document = NoDocument \<or> yaml_Input e document = Document []"
    using that
    by (auto simp: initializeIfNeeded_def YAMLLocalizationProducer_def read_into_def readYAML_def)
  have get: "getMessage e (YAML path [] []) ident = Inl OutOfBounds" by simp
  have getOr: "getMessageOr e (YAMLLocalizationProducer path printNames) ident d = Inl OutOfBounds"
    if "getFile (files e) path = Some document"
      and "yaml_Input e document = NoDocument \<or> yaml_Input e document = Document []"
    using init [OF that] by (simp add: getMessageOr_def)
  from len init get getOr show ?thesis by blast
qed

theorem yaml_without_records_is_out_of_range_witness:
  "readYAML [''A'', ''B'', ''C''] [(''C'', ''Tschau'')] [] [] = Inr ([[], [], ''Tschau''], [])
   \<and> length [[], [], ''Tschau''] = length [''A'', ''B'', ''C'']
   \<and> readYAML [''A'', ''B'', ''C''] [] [] [] = Inr ([], [])
   \<and> getFile (files demo_env) ''loc/it.yaml'' = Some []
   \<and> yaml_Input demo_env [] = NoDocument
   \<and> getMessageOr demo_env (YAMLLocalizationProducer ''loc/it.yaml'' False) 0 ''D''
       = Inl OutOfBounds"
proof -
  have r1: "readYAML [''A'', ''B'', ''C''] [(''C'', ''Tschau'')] [] [] = Inr ([[], [], ''Tschau''], [])"
    by code_simp
  have r2: "readYAML [''A'', ''B'', ''C''] [] [] [] = Inr ([], [])"
    by code_simp
  have f: "getFile (files demo_env) ''loc/it.yaml'' = Some []" "yaml_Input demo_env [] = NoDocument"
    by (simp_all add: demo_env_def demo_files_def demo_yaml_def getFile_def)
  show ?thesis
    using yaml_without_records_is_out_of_range
        [of "[''A'', ''B'', ''C'']" "[(''C'', ''Tschau'')]" "[]" "[]" "[[], [], ''Tschau'']" "[]"
            demo_env "''loc/it.yaml''" "[]" False 0 "''D''"]
      yaml_without_records_is_out_of_range
        [of "[''A'', ''B'', ''C'']" "[]" "[]" "[]" "[]" "[]"
            demo_env "''loc/it.yaml''" "[]" False 0 "''D''"]
      r1 r2 f
    by simp
qed

subsection \<open>The default message\<close>

text \<open>
  Claim C1, as the code has it.  \<open>getMessageOr\<close> returns the default message it was
  given, unchanged, when the producer is in \<open>FailedInitialization\<close> and when the entry
  of the identifier is empty.  Nothing is said of a backing file that is missing,
  unreadable or malformed.
\<close>

theorem default_when_entry_empty_or_failed:
  "(state p = FailedInitialization \<longrightarrow> getMessageOr e p ident d = Inr (d, p))
   \<and> (initializeIfNeeded e p = Inr p' \<and> getMessage e (backend p') ident = Inr [] \<longrightarrow>
        getMessageOr e p ident d = Inr (d, p'))"
proof (intro conjI impI)
  assume "state p = FailedInitialization"
  then have "initializeIfNeeded e p = Inr p" by (simp add: initializeIfNeeded_def)
  with \<open>state p = FailedInitialization\<close> show "getMessageOr e p ident d = Inr (d, p)"
    by (simp add: getMessageOr_def)
next
  assume "initializeIfNeeded e p = Inr p' \<and> getMessage e (backend p') ident = Inr []"
  then show "getMessageOr e p ident d = Inr (d, p')"
    by (simp add: getMessageOr_def)
qed

theorem default_when_entry_empty_or_failed_witness:
  "state failed_producer = FailedInitialization
   \<and> getMessageOr demo_env failed_producer 0 ''D'' = Inr (''D'', failed_producer)
   \<and> initializeIfNeeded demo_env (StringsLocalizationProducer ''loc/en.strings'' False)
        = Inr en_producer
   \<and> getMessage demo_env (backend en_producer) 1 = Inr []
   \<and> getMessageOr demo_env (StringsLocalizationProducer ''loc/en.strings'' False) 1 ''default-B''
        = Inr (''default-B'', en_producer)"
proof -
  have entry: "getMessage demo_env (backend en_producer) 1 = Inr []"
    by (simp add: en_producer_def)
  show ?thesis
    using default_when_entry_empty_or_failed [of failed_producer demo_env 0 "''D''"]
      default_when_entry_empty_or_failed
        [of "StringsLocalizationProducer ''loc/en.strings'' False" demo_env 1 "''default-B''"
            en_producer]
      en_initialize entry
    by (simp add: failed_producer_def)
qed

text \<open>
  The claim as the specification states it fails on a YAML producer whose file is
  absent: the first lookup does not return the default, it stops at the \<open>ErrorOr\<close>.
\<close>

theorem missing_file_counterexample:
  "files demo_env ''loc/zz.yaml'' = Absent
   \<and> getMessageOr demo_env (YAMLLocalizationProducer ''loc/zz.yaml'' False) 0 ''D''
       = Inl ErrorOrHasError"
  by code_simp

subsection \<open>Records with an unknown identifier\<close>

lemma enumCases_None: "enumCases names k scalar = None \<longleftrightarrow> scalar \<notin> set names"
  by (induction names arbitrary: k) auto

lemma enumCases_Some: "enumCases names k scalar = Some v \<Longrightarrow> v < k + length names"
  by (induction names arbitrary: k) (force split: if_splits)+

lemma readID_None: "readID names mapping = None \<longleftrightarrow> fst mapping \<notin> set names"
  using enumCases_Some [of names 0 "fst mapping"] enumCases_None [of names 0 "fst mapping"]
  by (auto simp: readID_def enumeration_def Let_def split: option.splits)

lemma readID_Some: "readID names mapping = Some ident \<Longrightarrow> ident < length names"
  using enumCases_Some [of names 0 "fst mapping"]
  by (auto simp: readID_def enumeration_def Let_def split: option.splits if_splits)

lemma length_store_known: "length (store_known names Seq mapping) = length Seq"
  by (simp add: store_known_def split: option.splits)

lemma length_foldl_store_known: "length (foldl (store_known names) Seq io) = length Seq"
  by (induction io arbitrary: Seq) (simp_all add: length_store_known)

lemma readElements_foldl:
  "length Seq = length names \<Longrightarrow>
   readElements names io Seq unknown
     = Inr (foldl (store_known names) Seq io, unknown @ unknown_of names io)"
proof (induction io arbitrary: Seq unknown)
  case Nil
  then show ?case by (simp add: unknown_of_def)
next
  case (Cons mapping io)
  show ?case
  proof (cases "readID names mapping")
    case None
    then show ?thesis
      using Cons.IH [of Seq "unknown @ [fst mapping]"] Cons.prems
      by (simp add: store_known_def unknown_of_def Let_def)
  next
    case (Some ident)
    then have "ident < length Seq" using readID_Some Cons.prems by simp
    then show ?thesis
      using Cons.IH [of "Seq[ident := snd mapping]" unknown] Cons.prems Some
      by (simp add: store_known_def unknown_of_def)
  qed
qed

lemma readYAML_nonempty:
  "io \<noteq> [] \<Longrightarrow> readYAML names io [] [] = Inr (catalog_of names io, unknown_of names io)"
  using readElements_foldl [of "replicate (length names) []" names io "[]"]
  by (simp add: readYAML_def resize_def catalog_of_def)

lemma foldl_store_unknown:
  "readID names mapping = None \<Longrightarrow>
   foldl (store_known names) Seq (before @ mapping # after)
     = foldl (store_known names) Seq (before @ after)"
  by (simp add: store_known_def)

lemma unknown_of_all_known:
  "\<forall>mapping \<in> set io. fst mapping \<in> set names \<Longrightarrow> unknown_of names io = []"
  by (simp add: unknown_of_def readID_None filter_empty_conv)

text \<open>
  Claim C2, as the code has it.  Let the sequence of a YAML file hold one record whose
  name is not a diagnostic, between records whose names are.  Parsing succeeds; the
  catalog has \<open>NumDiags\<close> slots and is the catalog of the other records, so the record
  is not in it; the unknown identifiers are exactly the name of that record, as it
  was written.  When there are other records, parsing the file without the record gives
  the same catalog.  The message of the record is not kept: another message in its
  place gives the same result.
\<close>

theorem unknown_record_is_isolated:
  assumes "unknownID \<notin> set names"
    and "\<forall>mapping \<in> set (before @ after). fst mapping \<in> set names"
  shows "readYAML names (before @ (unknownID, message) # after) [] []
           = Inr (catalog_of names (before @ after), [unknownID])
         \<and> length (catalog_of names (before @ after)) = length names
         \<and> (before @ after \<noteq> [] \<longrightarrow>
              readYAML names (before @ after) [] [] = Inr (catalog_of names (before @ after), []))
         \<and> readYAML names (before @ (unknownID, message') # after) [] []
             = readYAML names (before @ (unknownID, message) # after) [] []"
proof -
  have unk: "readID names (unknownID, m) = None" for m
    using assms(1) by (simp add: readID_None)
  have known: "unknown_of names before = []" "unknown_of names after = []"
    "unknown_of names (before @ after) = []"
    using assms(2) by (simp_all add: unknown_of_all_known)
  have cat: "catalog_of names (before @ (unknownID, m) # after) = catalog_of names (before @ after)"
    for m
    using foldl_store_unknown [OF unk] by (simp add: catalog_of_def)
  have unks: "unknown_of names (before @ (unknownID, m) # after) = [unknownID]" for m
    using known unk [of m] by (simp add: unknown_of_def)
  have run: "readYAML names (before @ (unknownID, m) # after) [] []
           = Inr (catalog_of names (before @ after), [unknownID])" for m
    using readYAML_nonempty [of "before @ (unknownID, m) # after" names] cat unks by simp
  have len: "length (catalog_of names (before @ after)) = length names"
    by (simp add: catalog_of_def length_foldl_store_known)
  have without: "before @ after \<noteq> [] \<longrightarrow>
              readYAML names (before @ after) [] [] = Inr (catalog_of names (before @ after), [])"
    using readYAML_nonempty [of "before @ after" names] known by simp
  from run len without show ?thesis by simp
qed

theorem unknown_record_is_isolated_witness:
  "''Z'' \<notin> set [''A'', ''B'', ''C'']
   \<and> fst (''C'', ''Tschau'') \<in> set [''A'', ''B'', ''C'']
   \<and> fst (''A'', ''Hallo'') \<in> set [''A'', ''B'', ''C'']
   \<and> readYAML [''A'', ''B'', ''C''] [(''C'', ''Tschau''), (''Z'', ''Weg''), (''A'', ''Hallo'')] [] []
       = Inr ([''Hallo'', [], ''Tschau''], [''Z''])
   \<and> readYAML [''A'', ''B'', ''C''] [(''C'', ''Tschau''), (''A'', ''Hallo'')] [] []
       = Inr ([''Hallo'', [], ''Tschau''], [])"
proof -
  have cat: "catalog_of [''A'', ''B'', ''C''] ([(''C'', ''Tschau'')] @ [(''A'', ''Hallo'')])
      = [''Hallo'', [], ''Tschau'']"
    by code_simp
  show ?thesis
    using unknown_record_is_isolated [of "''Z''" "[''A'', ''B'', ''C'']" "[(''C'', ''Tschau'')]"
        "[(''A'', ''Hallo'')]" "''Weg''" "''Weg''"] cat
    by simp
qed

text \<open>
  The claim as the specification states it fails twice.  Two files that differ only in
  the message of the unknown record give the same catalog and the same unknown
  identifiers, so the message is not preserved anywhere.  And a file whose only record
  is the unknown one gives a catalog of \<open>NumDiags\<close> empty slots, where the file without
  the record gives a catalog with no slot.
\<close>

theorem unknown_message_dropped_counterexample:
  "readYAML [''A'', ''B'', ''C''] [(''Z'', ''Weg'')] [] [] = Inr ([[], [], []], [''Z''])
   \<and> readYAML [''A'', ''B'', ''C''] [(''Z'', ''Fort'')] [] [] = Inr ([[], [], []], [''Z''])
   \<and> readYAML [''A'', ''B'', ''C''] [] [] [] = Inr ([], [])"
  by code_simp

subsection \<open>The YAML serializer\<close>

lemma escapeYAML_chars: "escapeYAML msg = concat (map escaped_char msg)"
  by (induction msg) (simp_all add: escaped_char_def)

lemma convertYAML_loop_records:
  "\<forall>i \<in> set indices. i < length IDs \<and> i < length Messages \<Longrightarrow>
   convertYAML_loop IDs Messages indices out
     = Inr (out @ concat (map (\<lambda>i. yaml_record (IDs ! i) (Messages ! i)) indices))"
  by (induction indices arbitrary: out)
     (simp_all add: Let_def yaml_record_def escapeYAML_chars)

text \<open>
  Claim C6, as the code has it.  When there is a message for every identifier, the
  serializer appends to the stream one record per identifier, in the order of the
  identifiers: the line \<open>- id: <name>\<close> ended by a bare LF, then the line
  \<open>  msg: "<message>"\<close> ended by CR LF, where in the message every double quote is
  written as backslash and double quote and every backslash as two backslashes.
\<close>

theorem convert_emits_records_in_order:
  "length IDs \<le> length Messages \<Longrightarrow>
   DefToYAMLConverter_convert IDs Messages out
     = Inr (out @ concat (map (\<lambda>i. yaml_record (IDs ! i) (Messages ! i)) [0..<length IDs]))"
  unfolding DefToYAMLConverter_convert_def
  by (rule convertYAML_loop_records) simp

theorem convert_emits_records_in_order_witness:
  "length [''A'', ''B''] \<le> length [''x'' @ [dquote] @ ''y'', [backslash]]
   \<and> DefToYAMLConverter_convert [''A'', ''B''] [''x'' @ [dquote] @ ''y'', [backslash]] []
       = Inr (''- id: A'' @ [LF] @ ''  msg: '' @ [dquote] @ ''x'' @ [backslash, dquote] @ ''y''
                @ [dquote, CR, LF]
              @ ''- id: B'' @ [LF] @ ''  msg: '' @ [dquote] @ [backslash, backslash]
                @ [dquote, CR, LF])"
  using convert_emits_records_in_order
    [of "[''A'', ''B'']" "[''x'' @ [dquote] @ ''y'', [backslash]]" "[]"]
  by (simp add: yaml_record_def escaped_char_def upt_rec [of 0] upt_rec [of 1] upt_rec [of 2])

text \<open>
  The claim as the specification states it fails on one diagnostic \<open>A\<close> with the
  message \<open>x\<close>: the first line of the output ends with an LF that follows the \<open>A\<close>.
\<close>

theorem id_line_ends_with_bare_LF_counterexample:
  "DefToYAMLConverter_convert [''A''] [''x''] []
     = Inr (''- id: A'' @ [LF] @ ''  msg: '' @ [dquote] @ ''x'' @ [dquote, CR, LF])
   \<and> \<not> every_line_ends_crlf
         (''- id: A'' @ [LF] @ ''  msg: '' @ [dquote] @ ''x'' @ [dquote, CR, LF])"
  by code_simp

subsection \<open>The enumeration of the available translations\<close>

lemma forEachLoop_calls:
  "unat i \<le> unat n \<Longrightarrow> unat n \<le> length diags \<Longrightarrow>
   forEachLoop diags i n calls = Inr (calls @ visits diags [unat i..<unat n])"
proof (induction "unat n - unat i" arbitrary: i calls)
  case 0
  then have "unat i = unat n" by simp
  then have "i = n" by (simp add: word_unat_eq_iff)
  then show ?case by (simp add: forEachLoop.simps visits_def)
next
  case (Suc d)
  then have lt: "unat i < unat n" by simp
  then have neq: "i \<noteq> n" by auto
  have "unat n < 2 ^ 32" using unsigned_less [of n, where 'a = nat] by simp
  with lt have "unat i + unat (1 :: 32 word) < 2 ^ LENGTH(32)" by simp
  then have suc: "unat (i + 1) = unat i + 1"
    using unat_add_lem [of i 1] by simp
  have inr: "unat i < length diags" using lt Suc.prems by simp
  have d: "d = unat n - unat (i + 1)" using Suc.hyps(2) suc by simp
  have le: "unat (i + 1) \<le> unat n" using lt suc by simp
  have upt: "[unat i..<unat n] = unat i # [unat (i + 1)..<unat n]"
    using lt suc by (simp add: upt_conv_Cons)
  show ?case
    using Suc.hyps(1) [OF d le Suc.prems(2)] neq inr upt
    by (subst forEachLoop.simps) (simp add: visits_def Let_def)
qed

lemma sorted_visits:
  "sorted_wrt (<) ks \<Longrightarrow> \<forall>k \<in> set ks. k < 2 ^ 32 \<Longrightarrow>
   sorted_wrt (<) (map fst (visits diags ks))"
proof (induction ks)
  case Nil
  then show ?case by (simp add: visits_def)
next
  case (Cons k ks)
  have "(of_nat k :: 32 word) < of_nat j" if "j \<in> set ks" for j
  proof -
    from that Cons.prems have "k < j" "j < 2 ^ 32" by auto
    then show ?thesis by (simp add: word_less_nat_alt unat_of_nat)
  qed
  with Cons show ?case by (auto simp: visits_def)
qed

lemma unat_of_nat_length: "n < 2 ^ 32 \<Longrightarrow> unat (of_nat n :: 32 word) = n"
  by (simp add: unat_of_nat)

text \<open>
  Claim C5.  \<open>forEachAvailable\<close> of the YAML and of the flat-text producer first
  runs \<open>initializeIfNeeded\<close>.  In \<open>FailedInitialization\<close> the callback is not
  called.  Otherwise the calls are exactly those of the positions \<open>0, 1, \<dots>\<close> of the
  vector \<open>diagnostics\<close> whose entry is not empty, in this order, each with the position
  and the entry: the identifiers of the calls are strictly ascending (so none is
  visited twice), every text passed is non-empty and is the entry of its identifier,
  and every identifier with a non-empty entry is visited.  The length of the vector is
  \<open>NumDiags\<close> or 0 in the program, and fits the \<open>uint32_t\<close> counter \<open>n\<close>.
\<close>

theorem forEachAvailable_visits_nonempty_ascending:
  assumes "forEachAvailable e p = Inr (calls, p')"
    and "length (diagnostics (backend p')) < 2 ^ 32"
    and "is_YAML (backend p) \<or> is_Strings (backend p)"
  shows "initializeIfNeeded e p = Inr p'
    \<and> (state p' = FailedInitialization \<longrightarrow> calls = [])
    \<and> (state p' \<noteq> FailedInitialization \<longrightarrow>
         calls = visits (diagnostics (backend p')) [0..<length (diagnostics (backend p'))])
    \<and> sorted_wrt (<) (map fst calls)
    \<and> (\<forall>(ident, text) \<in> set calls.
          text \<noteq> [] \<and> unat ident < length (diagnostics (backend p'))
          \<and> text = diagnostics (backend p') ! unat ident)
    \<and> (state p' \<noteq> FailedInitialization \<longrightarrow>
         (\<forall>ident. unat ident < length (diagnostics (backend p'))
            \<and> diagnostics (backend p') ! unat ident \<noteq> [] \<longrightarrow>
            (ident, diagnostics (backend p') ! unat ident) \<in> set calls))"
proof -
  let ?ds = "diagnostics (backend p')"
  have init: "initializeIfNeeded e p = Inr p'"
    using assms(1) by (auto simp: forEachAvailable_def Let_def split: if_splits sum.splits)
  have len: "unat (of_nat (length ?ds) :: 32 word) = length ?ds"
    using assms(2) by (rule unat_of_nat_length)
  have loop: "forEachLoop ?ds 0 (of_nat (length ?ds)) [] = Inr (visits ?ds [0..<length ?ds])"
    using forEachLoop_calls [of 0 "of_nat (length ?ds)" ?ds "[]"] len by simp
  have failed: "state p' = FailedInitialization \<longrightarrow> calls = []"
    using assms(1) init by (auto simp: forEachAvailable_def)
  have ok: "state p' \<noteq> FailedInitialization \<longrightarrow> calls = visits ?ds [0..<length ?ds]"
    using assms(1) init loop by (auto simp: forEachAvailable_def Let_def)
  have sorted: "sorted_wrt (<) (map fst (visits ?ds [0..<length ?ds]))"
    using assms(2) by (intro sorted_visits) auto
  have mem: "\<forall>(ident, text) \<in> set (visits ?ds [0..<length ?ds]).
          text \<noteq> [] \<and> unat ident < length ?ds \<and> text = ?ds ! unat ident"
    using assms(2) by (auto simp: visits_def unat_of_nat)
  have all: "(ident, ?ds ! unat ident) \<in> set (visits ?ds [0..<length ?ds])"
    if "unat ident < length ?ds" "?ds ! unat ident \<noteq> []" for ident
    using that by (force simp: visits_def)
  show ?thesis
  proof (cases "state p' = FailedInitialization")
    case True
    with failed have c: "calls = []" by simp
    show ?thesis using init True by (simp add: c)
  next
    case False
    with ok have "calls = visits ?ds [0..<length ?ds]" by simp
    then have c: "calls = visits ?ds [0..<length ?ds]" .
    have s1: "sorted_wrt (<) (map fst calls)" using sorted c by simp
    have s2: "\<forall>(ident, text) \<in> set calls.
          text \<noteq> [] \<and> unat ident < length ?ds \<and> text = ?ds ! unat ident"
      using mem c by simp
    have s3: "\<forall>ident. unat ident < length ?ds \<and> ?ds ! unat ident \<noteq> [] \<longrightarrow>
            (ident, ?ds ! unat ident) \<in> set calls"
      using all c by simp
    show ?thesis
      apply (intro conjI)
           apply (rule init)
          apply (simp add: False)
         apply (simp add: c)
        apply (rule s1)
       apply (rule s2)
      apply (rule impI, rule s3)
      done
  qed
qed

theorem forEachAvailable_visits_nonempty_ascending_witness:
  "forEachAvailable demo_env (StringsLocalizationProducer ''loc/en.strings'' False)
     = Inr ([(0, ''Hello '' @ [dquote] @ ''World'' @ [dquote]), (2, ''Bye'')], en_producer)
   \<and> length (diagnostics (backend en_producer)) < 2 ^ 32
   \<and> is_Strings (backend (StringsLocalizationProducer ''loc/en.strings'' False))
   \<and> is_YAML (backend failed_producer)
   \<and> state en_producer \<noteq> FailedInitialization
   \<and> visits (diagnostics (backend en_producer)) [0..<length (diagnostics (backend en_producer))]
       = [(0, ''Hello '' @ [dquote] @ ''World'' @ [dquote]), (2, ''Bye'')]
   \<and> sorted_wrt (<) (map fst [(0 :: 32 word, ''Hello '' @ [dquote] @ ''World'' @ [dquote]), (2, ''Bye'')])
   \<and> forEachAvailable demo_env failed_producer = Inr ([], failed_producer)
   \<and> state failed_producer = FailedInitialization"
proof -
  have len: "length (diagnostics (backend en_producer)) < 2 ^ 32"
    by (simp add: en_producer_def)
  have failed: "forEachAvailable demo_env failed_producer = Inr ([], failed_producer)"
    by (simp add: forEachAvailable_def initializeIfNeeded_def failed_producer_def)
  have len': "length (diagnostics (backend failed_producer)) < 2 ^ 32"
    by (simp add: failed_producer_def)
  have kind: "is_YAML (backend (StringsLocalizationProducer ''loc/en.strings'' False))
      \<or> is_Strings (backend (StringsLocalizationProducer ''loc/en.strings'' False))"
    by (simp add: StringsLocalizationProducer_def)
  have kind': "is_YAML (backend failed_producer) \<or> is_Strings (backend failed_producer)"
    by (simp add: failed_producer_def)
  show ?thesis
    using forEachAvailable_visits_nonempty_ascending [OF en_forEach len kind]
      forEachAvailable_visits_nonempty_ascending [OF failed len' kind']
      en_forEach failed
    by (simp add: en_producer_def failed_producer_def visits_def StringsLocalizationProducer_def)
qed

subsection \<open>The scan of a flat-text message\<close>

lemma find_first_of_append:
  "c \<notin> set xs \<Longrightarrow> find_first_of (xs @ c # ys) c = Some (length xs)"
  by (induction xs) auto

lemma ltrim_spaces:
  "set sp \<subseteq> {CHR '' ''} \<Longrightarrow> c \<noteq> CHR '' '' \<Longrightarrow> ltrim '' '' (sp @ c # rest) = c # rest"
  by (induction sp) (auto simp: ltrim_def)

lemma readTranslation_header:
  assumes "dquote \<notin> set ident" and "set sp1 \<subseteq> {CHR '' ''}" and "set sp2 \<subseteq> {CHR '' ''}"
  shows "readTranslation ([dquote] @ ident @ [dquote] @ sp1 @ ''='' @ sp2 @ [dquote] @ body)
     = (case scanMessage body 0 (of_nat (length body)) [] of
          Inl f \<Rightarrow> Inl f
        | Inr (msg, rest) \<Rightarrow> Inr (ident, msg, rest))"
proof -
  have ff: "find_first_of (ident @ dquote # (sp1 @ ''='' @ sp2 @ [dquote] @ body)) dquote
      = Some (length ident)"
    using assms(1) by (rule find_first_of_append)
  have t1: "ltrim '' '' (sp1 @ CHR ''='' # (sp2 @ [dquote] @ body)) = CHR ''='' # (sp2 @ [dquote] @ body)"
    using assms(2) by (rule ltrim_spaces) simp
  have t2: "ltrim '' '' (sp2 @ dquote # body) = dquote # body"
    using assms(3) by (rule ltrim_spaces) simp
  show ?thesis
    using ff t1 t2
    by (simp add: readTranslation_def startswith_def drop_front_def Let_def)
qed

lemma of_nat32_neq: "a < b \<Longrightarrow> b < 2 ^ 32 \<Longrightarrow> (of_nat a :: 32 word) \<noteq> of_nat b"
  using unat_of_nat_length [of a] unat_of_nat_length [of b] by auto

lemma of_nat32_pos: "0 < k \<Longrightarrow> k < 2 ^ 32 \<Longrightarrow> 0 < (of_nat k :: 32 word)"
  using unat_of_nat_length [of k] by (simp add: word_less_nat_alt)

lemma of_nat32_pred: "0 < k \<Longrightarrow> k < 2 ^ 32 \<Longrightarrow> unat ((of_nat k :: 32 word) - 1) = k - 1"
  by (cases k) (simp_all add: unat_of_nat_length)

lemma push_char_nonempty: "push_char msg c \<noteq> []"
  by (simp add: push_char_def)

lemma scanMessage_run:
  assumes "length (pre @ raw @ suf) < 2 ^ 32"
    and "escaped_from (last_of pre) raw"
    and "pre \<noteq> [] \<longrightarrow> msg \<noteq> []"
  shows "scanMessage (pre @ raw @ suf) (of_nat (length pre)) (of_nat (length (pre @ raw @ suf))) msg
       = scanMessage (pre @ raw @ suf) (of_nat (length (pre @ raw)))
           (of_nat (length (pre @ raw @ suf))) (foldl push_char msg raw)"
  using assms
proof (induction raw arbitrary: pre msg)
  case Nil
  then show ?case by simp
next
  case (Cons c raw)
  let ?b = "pre @ (c # raw) @ suf"
  let ?i = "of_nat (length pre) :: 32 word"
  let ?n = "of_nat (length ?b) :: 32 word"
  have lt: "length pre < length ?b" by simp
  have bound: "length ?b < 2 ^ 32" using Cons.prems(1) .
  have neq: "?i \<noteq> ?n" using lt bound by (rule of_nat32_neq)
  have ui: "unat ?i = length pre" using lt bound by (simp add: unat_of_nat_length)
  have at: "?b ! length pre = c" by simp
  have next_i: "?i + 1 = of_nat (length (pre @ [c]))" by simp
  have b': "?b = (pre @ [c]) @ raw @ suf" by simp
  have step: "scanMessage ?b ?i ?n msg = scanMessage ?b (?i + 1) ?n (push_char msg c)"
  proof (cases "c = dquote")
    case False
    then show ?thesis
      using neq ui at lt by (subst scanMessage.simps) (simp add: push_char_def)
  next
    case True
    with Cons.prems(2) have prev: "last_of pre = Some backslash" by simp
    then have ne: "pre \<noteq> []" and lastb: "last pre = backslash"
      by (auto simp: last_of_def split: if_splits)
    then have pos: "0 < ?i" using lt bound by (intro of_nat32_pos) auto
    have "length pre < 2 ^ 32" using lt bound by simp
    then have "unat (?i - 1) = length pre - 1"
      using ne by (intro of_nat32_pred) simp_all
    then have before: "?b ! unat (?i - 1) = backslash"
      using ne lastb by (simp add: nth_append last_conv_nth)
    have msg: "msg \<noteq> []" using Cons.prems(3) ne by simp
    show ?thesis
      using neq ui at lt True pos before msg
      by (subst scanMessage.simps) (simp add: push_char_def)
  qed
  have esc: "escaped_from (last_of (pre @ [c])) raw"
    using Cons.prems(2) by (simp add: last_of_def split: if_splits)
  have "scanMessage ((pre @ [c]) @ raw @ suf) (of_nat (length (pre @ [c])))
          (of_nat (length ((pre @ [c]) @ raw @ suf))) (push_char msg c)
      = scanMessage ((pre @ [c]) @ raw @ suf) (of_nat (length ((pre @ [c]) @ raw)))
          (of_nat (length ((pre @ [c]) @ raw @ suf))) (foldl push_char (push_char msg c) raw)"
    using Cons.prems(1) esc by (intro Cons.IH) (simp_all add: push_char_nonempty)
  then show ?case using step next_i by simp
qed

lemma scanMessage_at_quote:
  assumes "length b < 2 ^ 32" and "k < length b" and "b ! k = dquote"
  shows "scanMessage b (of_nat k) (of_nat (length b)) msg =
     (if k = 0 then Inl AssertionFailure
      else if b ! (k - 1) = backslash then
        (if msg = [] then Inl AssertionFailure
         else scanMessage b (of_nat k + 1) (of_nat (length b)) (butlast msg @ [dquote]))
      else if k + 1 < length b \<and> b ! (k + 1) = CHR '';'' then
        Inr (msg, ltrim whitespace (drop (k + 2) b))
      else Inl Unreachable)"
proof -
  let ?i = "of_nat k :: 32 word"
  let ?n = "of_nat (length b) :: 32 word"
  have neq: "?i \<noteq> ?n" using assms(1,2) by (intro of_nat32_neq)
  have ui: "unat ?i = k" and un: "unat ?n = length b"
    using assms(1,2) by (simp_all add: unat_of_nat_length)
  have i1: "?i + 1 = of_nat (k + 1)" and i2: "?i + 2 = of_nat (k + 2)" by simp_all
  show ?thesis
  proof (cases "k = 0")
    case True
    then show ?thesis
      using neq ui assms by (subst scanMessage.simps) simp
  next
    case False
    then have pos: "0 < ?i" using assms(1,2) by (intro of_nat32_pos) simp_all
    have "k < 2 ^ 32" using assms(1,2) by simp
    then have um: "unat (?i - 1) = k - 1"
      using False by (intro of_nat32_pred) simp_all
    show ?thesis
    proof (cases "k + 1 < length b")
      case True
      have "unat (of_nat (k + 1) :: 32 word) = k + 1"
        using True assms(1) by (intro unat_of_nat_length) simp
      then have u1: "unat (?i + 1) = k + 1" by (simp only: i1)
      have "unat (of_nat (k + 2) :: 32 word) = k + 2"
        using True assms(1) by (intro unat_of_nat_length) simp
      then have u2: "unat (?i + 2) = k + 2" by (simp only: i2)
      have lt: "?i + 1 < ?n" using u1 un True by (simp only: word_less_nat_alt)
      show ?thesis
        apply (subst scanMessage.simps)
        using neq ui pos um lt u1 u2 True False assms(2,3)
        by (simp add: drop_front_def del: of_nat_add of_nat_Suc)
    next
      case nolt: False
      have "\<not> ?i + 1 < ?n"
      proof
        assume "?i + 1 < ?n"
        then have "unat (?i + 1) < length b" using un by (simp only: word_less_nat_alt)
        moreover have "unat (of_nat (k + 1) :: 32 word) = k + 1"
          using assms(1,2) by (intro unat_of_nat_length) simp
        then have "unat (?i + 1) = k + 1" by (simp only: i1)
        ultimately show False using nolt by simp
      qed
      then show ?thesis
        apply (subst scanMessage.simps)
        using neq ui pos um nolt False assms(2,3)
        by (simp del: of_nat_add of_nat_Suc)
    qed
  qed
qed

lemma scanMessage_at_end:
  "scanMessage b (of_nat (length b)) (of_nat (length b)) msg = Inl AssertionFailure"
  by (subst scanMessage.simps) simp

lemma scanMessage_prefix:
  assumes "length (raw @ suf) < 2 ^ 32" and "escaped_from None raw"
  shows "scanMessage (raw @ suf) 0 (of_nat (length (raw @ suf))) []
       = scanMessage (raw @ suf) (of_nat (length raw)) (of_nat (length (raw @ suf)))
           (accumulated raw)"
  using scanMessage_run [of "[]" raw suf "[]"] assms
  by (simp add: last_of_def accumulated_def)

lemma accumulated_snoc:
  "accumulated (raw @ [c]) = push_char (accumulated raw) c"
  by (simp add: accumulated_def)

lemma accumulated_nonempty: "raw \<noteq> [] \<Longrightarrow> accumulated raw \<noteq> []"
  by (cases raw rule: rev_cases) (simp_all add: accumulated_snoc push_char_nonempty)

lemma scanMessage_terminator:
  assumes "raw \<noteq> []" and "escaped_from None raw" and "last raw \<noteq> backslash"
    and "length (raw @ dquote # CHR '';'' # rest) < 2 ^ 32"
  shows "scanMessage (raw @ dquote # CHR '';'' # rest) 0
           (of_nat (length (raw @ dquote # CHR '';'' # rest))) []
       = Inr (accumulated raw, ltrim whitespace rest)"
proof -
  define b where "b = raw @ dquote # CHR '';'' # rest"
  have len: "length raw < length b" "length raw + 1 < length b"
    and at: "b ! length raw = dquote" "b ! (length raw + 1) = CHR '';''"
    and before: "b ! (length raw - 1) = last raw"
    and rest: "drop (length raw + 2) b = rest"
    using assms(1) by (simp_all add: b_def nth_append last_conv_nth)
  have bound: "length b < 2 ^ 32" using assms(4) by (simp add: b_def)
  have "scanMessage b 0 (of_nat (length b)) []
      = scanMessage b (of_nat (length raw)) (of_nat (length b)) (accumulated raw)"
    unfolding b_def using assms(2,4) by (rule scanMessage_prefix [rotated])
  also have "\<dots> = Inr (accumulated raw, ltrim whitespace rest)"
    using scanMessage_at_quote [OF bound len(1) at(1), of "accumulated raw"]
      assms(1,3) len at before rest
    by simp
  finally show ?thesis by (simp only: b_def)
qed

lemma scanMessage_not_semicolon:
  assumes "raw \<noteq> []" and "escaped_from None raw" and "last raw \<noteq> backslash"
    and "suf = [] \<or> hd suf \<noteq> CHR '';''"
    and "length (raw @ dquote # suf) < 2 ^ 32"
  shows "scanMessage (raw @ dquote # suf) 0 (of_nat (length (raw @ dquote # suf))) []
       = Inl Unreachable"
proof -
  define b where "b = raw @ dquote # suf"
  have len: "length raw < length b"
    and at: "b ! length raw = dquote"
    and before: "b ! (length raw - 1) = last raw"
    and nxt: "length raw + 1 < length b \<longrightarrow> b ! (length raw + 1) \<noteq> CHR '';''"
    using assms(1,4) by (auto simp: b_def nth_append last_conv_nth hd_conv_nth)
  have bound: "length b < 2 ^ 32" using assms(5) by (simp add: b_def)
  have "scanMessage b 0 (of_nat (length b)) []
      = scanMessage b (of_nat (length raw)) (of_nat (length b)) (accumulated raw)"
    unfolding b_def using assms(2,5) by (rule scanMessage_prefix [rotated])
  also have "\<dots> = Inl Unreachable"
    using scanMessage_at_quote [OF bound len at, of "accumulated raw"]
      assms(1,3) before nxt
    by auto
  finally show ?thesis by (simp only: b_def)
qed

lemma scanMessage_first_quote:
  assumes "length (dquote # suf) < 2 ^ 32"
  shows "scanMessage (dquote # suf) 0 (of_nat (length (dquote # suf))) [] = Inl AssertionFailure"
  using scanMessage_at_quote [OF assms, of 0 "[]"] by simp

lemma scanMessage_unterminated:
  assumes "escaped_from None raw" and "length raw < 2 ^ 32"
  shows "scanMessage raw 0 (of_nat (length raw)) [] = Inl AssertionFailure"
  using scanMessage_prefix [of raw "[]"] assms scanMessage_at_end [of raw] by simp

lemma readStringsLoop_fault:
  assumes "dquote \<notin> set ident" and "set sp1 \<subseteq> {CHR '' ''}" and "set sp2 \<subseteq> {CHR '' ''}"
    and "scanMessage body 0 (of_nat (length body)) [] = Inl f"
  shows "readStringsLoop locs st
           ([dquote] @ ident @ [dquote] @ sp1 @ ''='' @ sp2 @ [dquote] @ body) = Inl f"
  using readTranslation_header [OF assms(1,2,3), of body] assms(4)
  by (subst readStringsLoop.simps) (simp add: startswith_def)

lemma getMessageOr_fault:
  assumes "getFile (files e) path = Some document"
    and "readStringsFile (DiagnosticsAll e) document diags = Inl f"
  shows "getMessageOr e \<lparr>state = NotInitialized, printDiagnosticNames = printNames,
           backend = Strings path diags\<rparr> ident d = Inl f"
  using assms by (simp add: getMessageOr_def initializeIfNeeded_def)

lemma scanMessage_at_other:
  assumes "length b < 2 ^ 32" and "k < length b" and "b ! k \<noteq> dquote"
  shows "scanMessage b (of_nat k) (of_nat (length b)) msg
       = scanMessage b (of_nat k + 1) (of_nat (length b)) (msg @ [b ! k])"
proof -
  have "(of_nat k :: 32 word) \<noteq> of_nat (length b)" using assms(1,2) by (intro of_nat32_neq)
  moreover have "unat (of_nat k :: 32 word) = k" using assms(1,2) by (simp add: unat_of_nat_length)
  ultimately show ?thesis
    using assms(2,3) by (subst scanMessage.simps) simp
qed

lemma accumulated_escaped_quote:
  "accumulated (raw @ [backslash, dquote]) = accumulated raw @ [dquote]"
  by (simp add: accumulated_def push_char_def)

text \<open>
  What the scan does at every position but the first.  At a position \<open>k\<close> of a
  buffer shorter than \<open>2^32\<close>: a character that is not a double quote is added to
  the message and the scan goes on; at a double quote after a backslash the quote
  replaces the backslash in the message and the scan goes on; at any other double
  quote a following semicolon ends the message, the rest of the buffer being what
  follows the semicolon, left-trimmed; otherwise the scan stops at
  \<open>llvm_unreachable\<close>.  Hence, from the start of a message: raw text whose quotes are
  all escaped, not empty and not ending in a backslash, followed by quote and semicolon,
  gives the accumulated message; followed by a quote and no semicolon it is
  \<open>Unreachable\<close>; a text that ends before an unescaped quote fails the assertion of
  line 437.  A fault of the scan is the result of the loop over the file, and of the
  first lookup on a producer of that file: nothing recovers from it.
\<close>

theorem flat_text_message_scan:
  "(length b < 2 ^ 32 \<and> k < length b \<and> b ! k \<noteq> dquote \<longrightarrow>
      scanMessage b (of_nat k) (of_nat (length b)) msg
        = scanMessage b (of_nat k + 1) (of_nat (length b)) (msg @ [b ! k]))
   \<and> (length b < 2 ^ 32 \<and> k < length b \<and> b ! k = dquote \<and> 0 < k \<longrightarrow>
      scanMessage b (of_nat k) (of_nat (length b)) msg =
        (if b ! (k - 1) = backslash then
           (if msg = [] then Inl AssertionFailure
            else scanMessage b (of_nat k + 1) (of_nat (length b)) (butlast msg @ [dquote]))
         else if k + 1 < length b \<and> b ! (k + 1) = CHR '';'' then
           Inr (msg, ltrim whitespace (drop (k + 2) b))
         else Inl Unreachable))
   \<and> accumulated (raw @ [backslash, dquote]) = accumulated raw @ [dquote]
   \<and> (raw \<noteq> [] \<and> escaped_from None raw \<and> last raw \<noteq> backslash
        \<and> length (raw @ dquote # CHR '';'' # rest) < 2 ^ 32 \<longrightarrow>
      scanMessage (raw @ dquote # CHR '';'' # rest) 0
          (of_nat (length (raw @ dquote # CHR '';'' # rest))) []
        = Inr (accumulated raw, ltrim whitespace rest))
   \<and> (raw \<noteq> [] \<and> escaped_from None raw \<and> last raw \<noteq> backslash
        \<and> (suf = [] \<or> hd suf \<noteq> CHR '';'') \<and> length (raw @ dquote # suf) < 2 ^ 32 \<longrightarrow>
      scanMessage (raw @ dquote # suf) 0 (of_nat (length (raw @ dquote # suf))) []
        = Inl Unreachable)
   \<and> (escaped_from None open_text \<and> length open_text < 2 ^ 32 \<longrightarrow>
      scanMessage open_text 0 (of_nat (length open_text)) [] = Inl AssertionFailure)
   \<and> (dquote \<notin> set ident \<and> set sp1 \<subseteq> {CHR '' ''} \<and> set sp2 \<subseteq> {CHR '' ''}
        \<and> scanMessage body 0 (of_nat (length body)) [] = Inl f \<longrightarrow>
      readStringsLoop locs st
          ([dquote] @ ident @ [dquote] @ sp1 @ ''='' @ sp2 @ [dquote] @ body) = Inl f)
   \<and> (getFile (files e) path = Some document
        \<and> readStringsFile (DiagnosticsAll e) document diags = Inl f \<longrightarrow>
      getMessageOr e \<lparr>state = NotInitialized, printDiagnosticNames = printNames,
          backend = Strings path diags\<rparr> ident' d = Inl f)"
  apply (intro conjI impI)
         apply (rule scanMessage_at_other; simp)
        apply (simp add: scanMessage_at_quote)
       apply (rule accumulated_escaped_quote)
      apply (rule scanMessage_terminator; simp)
     apply (rule scanMessage_not_semicolon; simp)
    apply (rule scanMessage_unterminated; simp)
   apply (rule readStringsLoop_fault; simp)
  apply (elim conjE, rule getMessageOr_fault, assumption+)
  done

theorem flat_text_message_scan_witness:
  "scanMessage ([CHR ''a'', backslash, dquote, CHR ''b'', dquote, CHR '';''] @ [CR, LF]) 0 8 []
     = scanMessage ([CHR ''a'', backslash, dquote, CHR ''b'', dquote, CHR '';''] @ [CR, LF]) 1 8 ''a''
   \<and> scanMessage ([CHR ''a'', backslash, dquote, CHR ''b'', dquote, CHR '';''] @ [CR, LF]) 2 8
        [CHR ''a'', backslash]
     = scanMessage ([CHR ''a'', backslash, dquote, CHR ''b'', dquote, CHR '';''] @ [CR, LF]) 3 8
        [CHR ''a'', dquote]
   \<and> scanMessage ([CHR ''a'', backslash, dquote, CHR ''b'', dquote, CHR '';''] @ [CR, LF]) 4 8
        [CHR ''a'', dquote, CHR ''b'']
     = Inr ([CHR ''a'', dquote, CHR ''b''], [])
   \<and> escaped_from None [CHR ''a'', backslash, dquote, CHR ''b'']
   \<and> scanMessage ([CHR ''a'', backslash, dquote, CHR ''b'', dquote, CHR '';''] @ [CR, LF]) 0 8 []
     = Inr ([CHR ''a'', dquote, CHR ''b''], [])
   \<and> scanMessage ([CHR ''x'', dquote] @ ''y;'') 0 4 [] = Inl Unreachable
   \<and> scanMessage ''abc'' 0 3 [] = Inl AssertionFailure
   \<and> readStringsLoop (diagLocs [''A'', ''B'', ''C'']) ([[], [], []], [])
        ([dquote] @ ''A'' @ [dquote] @ '' '' @ ''='' @ '' '' @ [dquote] @ [CHR ''x'', dquote] @ ''y;'')
     = Inl Unreachable
   \<and> getFile (files demo_env) ''loc/xx.strings'' = Some xx_strings
   \<and> readStringsFile (DiagnosticsAll demo_env) xx_strings [] = Inl Unreachable
   \<and> getMessageOr demo_env (StringsLocalizationProducer ''loc/xx.strings'' False) 0 ''D''
     = Inl Unreachable"
proof -
  let ?b = "[CHR ''a'', backslash, dquote, CHR ''b'', dquote, CHR '';''] @ [CR, LF]"
  have esc: "escaped_from None [CHR ''a'', backslash, dquote, CHR ''b'']" by simp
  have acc: "accumulated [CHR ''a'', backslash, dquote, CHR ''b''] = [CHR ''a'', dquote, CHR ''b'']"
    by (simp add: accumulated_def push_char_def)
  have trim: "ltrim whitespace [CR, LF] = []" by (simp add: ltrim_def whitespace_def)
  have readable: "getFile (files demo_env) ''loc/xx.strings'' = Some xx_strings"
    by (simp add: demo_env_def demo_files_def getFile_def)
  have bad: "readStringsFile (DiagnosticsAll demo_env) xx_strings [] = Inl Unreachable"
    by code_simp
  show ?thesis
    using flat_text_message_scan [where b = ?b and k = 0 and msg = "[]"]
      flat_text_message_scan [where b = ?b and k = 2 and msg = "[CHR ''a'', backslash]"]
      flat_text_message_scan [where b = ?b and k = 4 and msg = "[CHR ''a'', dquote, CHR ''b'']"]
      flat_text_message_scan [where raw = "[CHR ''a'', backslash, dquote, CHR ''b'']"
        and rest = "[CR, LF]"]
      flat_text_message_scan [where raw = "[CHR ''x'']" and suf = "''y;''"]
      flat_text_message_scan [where open_text = "''abc''"]
      flat_text_message_scan [where ident = "''A''" and ?sp1.0 = "'' ''" and ?sp2.0 = "'' ''"
        and body = "[CHR ''x'', dquote] @ ''y;''" and f = Unreachable
        and locs = "diagLocs [''A'', ''B'', ''C'']" and st = "([[], [], []], [])"]
      flat_text_message_scan [where e = demo_env and path = "''loc/xx.strings''"
        and document = xx_strings and diags = "[]" and f = Unreachable and printNames = False
        and ident' = 0 and d = "''D''"]
      esc acc trim readable bad
    by (simp add: StringsLocalizationProducer_def ltrim_def whitespace_def)
qed

text \<open>
  Claim C4.  The claim is what the scan does wherever the double quote is not the first
  character of the message, and what the comment of lines 423-425 says: a quote that is
  not escaped and that a semicolon follows ends the message.  The code misses the
  message that is empty.  \<open>DefToStringsConverter::convert\<close> writes
  \<open>"A" = "";\<close> for a diagnostic \<open>A\<close> with an empty text; its closing quote is the
  first character scanned, not escaped, with a semicolon after it, and the scan fails
  the assertion \<open>i > 0\<close> of line 412 instead of ending the message, so that
  \<open>readStringsFile\<close> does not return.  What the same writer writes for the text
  \<open>x\<close> is read back.
\<close>

theorem empty_message_fails_assertion:
  "DefToStringsConverter_convert [''A''] [[]] []
     = Inr ([dquote] @ ''A'' @ [dquote] @ '' = '' @ [dquote, dquote] @ '';'' @ [CR, LF])
   \<and> scanMessage ([dquote, CHR '';''] @ [CR, LF]) 0 4 [] = Inl AssertionFailure
   \<and> readStringsFile [''A'', ''B'', ''C'']
         ([dquote] @ ''A'' @ [dquote] @ '' = '' @ [dquote, dquote] @ '';'' @ [CR, LF]) []
       = Inl AssertionFailure
   \<and> DefToStringsConverter_convert [''A''] [''x''] []
     = Inr ([dquote] @ ''A'' @ [dquote] @ '' = '' @ [dquote] @ ''x'' @ [dquote] @ '';'' @ [CR, LF])
   \<and> readStringsFile [''A'', ''B'', ''C'']
         ([dquote] @ ''A'' @ [dquote] @ '' = '' @ [dquote] @ ''x'' @ [dquote] @ '';'' @ [CR, LF]) []
       = Inr ([''x'', [], []], [])"
  by code_simp

subsection \<open>The serialized format: writing and reading back\<close>

lemma le32_nat:
  assumes "v < 2 ^ 32"
  shows "v mod 256 + 256 * (v div 256 mod 256) + 65536 * (v div 65536 mod 256)
    + 16777216 * (v div 16777216 mod 256) = (v :: nat)"
proof -
  have d2: "v div 65536 = v div 256 div 256" and d3: "v div 16777216 = v div 65536 div 256"
    by (simp_all add: div_mult2_eq)
  have top: "v div 16777216 < 256" using assms by simp
  have s0: "v = v mod 256 + 256 * (v div 256)" by simp
  have s1: "v div 256 = v div 256 mod 256 + 256 * (v div 65536)" unfolding d2 by simp
  have s2: "v div 65536 = v div 65536 mod 256 + 256 * (v div 16777216)" unfolding d3 by simp
  have s3: "v div 16777216 mod 256 = v div 16777216" using top by simp
  show ?thesis using s0 s1 s2 s3 by linarith
qed

lemma read_le32_write_le32: "read_le32 (write_le32 w @ rest) = w"
proof -
  have "unat w < 2 ^ 32" using unsigned_less [of w, where 'a = nat] by simp
  then have eq: "unat w mod 256 + 256 * (unat w div 256 mod 256)
      + 65536 * (unat w div 65536 mod 256)
      + 16777216 * (unat w div 16777216 mod 256) = unat w"
    by (rule le32_nat)
  have nth: "(write_le32 w @ rest) ! 0 = char_of (unat w)"
    "(write_le32 w @ rest) ! 1 = char_of (unat w div 256)"
    "(write_le32 w @ rest) ! 2 = char_of (unat w div 65536)"
    "(write_le32 w @ rest) ! 3 = char_of (unat w div 16777216)"
    by (simp_all add: write_le32_def Let_def nth_append)
  have "read_le32 (write_le32 w @ rest)
      = of_nat (unat w mod 256 + 256 * (unat w div 256 mod 256)
          + 65536 * (unat w div 65536 mod 256)
          + 16777216 * (unat w div 16777216 mod 256))"
    unfolding read_le32_def nth by (simp only: of_char_of)
  also have "\<dots> = of_nat (unat w)" by (simp only: eq)
  also have "\<dots> = w" by simp
  finally show ?thesis .
qed

lemma length_write_le32: "length (write_le32 w) = 4"
  by (simp add: write_le32_def Let_def)

lemma decode_encode_data: "decode_data (encode_data v @ rest) = (v, rest)"
  by (induction v) (cases rest; simp)+

lemma lookup_encode_table:
  "lookup_table (encode_table entries) key
     = (case map_of entries key of Some data \<Rightarrow> data | None \<Rightarrow> [])"
proof (induction entries)
  case Nil
  then show ?case by (subst lookup_table.simps) simp
next
  case (Cons entry entries)
  obtain k v where entry: "entry = (k, v)" by (cases entry)
  have len: "\<not> length (write_le32 k @ encode_data v @ encode_table entries) < 4"
    by (simp add: length_write_le32)
  have dec: "decode_data (drop 4 (write_le32 k @ encode_data v @ encode_table entries))
      = (v, encode_table entries)"
    by (simp add: length_write_le32 decode_encode_data)
  have rd: "read_le32 (write_le32 k @ encode_data v @ encode_table entries) = k"
    by (rule read_le32_write_le32)
  have "lookup_table (write_le32 k @ encode_data v @ encode_table entries) key
      = (if k = key then v else lookup_table (encode_table entries) key)"
    by (subst lookup_table.simps) (simp only: len dec rd if_False prod.case)
  then show ?case
    unfolding entry using Cons.IH by auto
qed

lemma demo_index_contract: "index_contract demo_env"
proof -
  have four: "unat (4 :: 32 word) = 4" by simp
  show ?thesis
    unfolding index_contract_def
    by (simp add: demo_env_def length_write_le32 lookup_encode_table)
qed

lemma generator_foldl_insert:
  "generator (foldl (\<lambda>w (ident, translation). insert_translation w ident translation) w entries)
     = generator w @ entries"
  by (induction entries arbitrary: w) (auto simp: insert_translation_def)

lemma generator_insert_all: "generator (insert_all entries) = entries"
  by (simp add: insert_all_def generator_foldl_insert)

lemma distinct_catalog_entries:
  assumes "length catalog \<le> 2 ^ 32"
  shows "distinct (map fst (catalog_entries catalog))"
proof -
  have neq: "(of_nat a :: 32 word) \<noteq> of_nat b" if "a < b" "b < length catalog" for a b
  proof -
    from that(2) assms have "b < 2 ^ 32" by (rule less_le_trans)
    with that(1) show ?thesis by (rule of_nat32_neq)
  qed
  have "inj_on (of_nat :: nat \<Rightarrow> 32 word) (set [0..<length catalog])"
  proof (rule inj_onI)
    fix a b assume a: "a \<in> set [0..<length catalog]" and b: "b \<in> set [0..<length catalog]"
      and eq: "(of_nat a :: 32 word) = of_nat b"
    show "a = b"
    proof (rule ccontr)
      assume "a \<noteq> b"
      then consider "a < b" | "b < a" by (meson linorder_neqE_nat)
      then show False
      proof cases
        case 1
        then show False using neq [of a b] b eq by simp
      next
        case 2
        then show False using neq [of b a] a eq by simp
      qed
    qed
  qed
  then have "distinct (map (of_nat :: nat \<Rightarrow> 32 word) [0..<length catalog])"
    by (simp only: distinct_map distinct_upt simp_thms)
  moreover have "map fst (catalog_entries catalog) = map of_nat [0..<length catalog]"
    by (simp add: catalog_entries_def comp_def)
  ultimately show ?thesis by simp
qed

text \<open>
  Claim C3.  Let the index of the table keep its contract, and let \<open>entries\<close> be
  pairs with distinct identifiers, as those of a complete catalog are
  (\<open>distinct_catalog_entries\<close>), inserted in any order.  Writing them to a .db file
  that can be opened succeeds; a producer built on the bytes written is initialized by
  its first use, and \<open>getMessage\<close> then returns, for every identifier inserted,
  exactly the text inserted with it.
\<close>

theorem serialized_round_trip:
  assumes "index_contract e"
    and "path_extension e dbFile = ''.db''" and "writable e dbFile"
    and "distinct (map fst entries)"
  shows "\<exists>bytes offset.
      emit e (insert_all entries) dbFile = Inr (False, Some bytes)
      \<and> initializeIfNeeded e (SerializedLocalizationProducer bytes printNames)
          = Inr \<lparr>state = Initialized, printDiagnosticNames = printNames,
                 backend = Serialized bytes (Some offset)\<rparr>
      \<and> (\<forall>(ident, text) \<in> set entries.
            getMessage e (Serialized bytes (Some offset)) ident = Inr text)"
proof -
  obtain OS' offset where em: "generator_Emit e entries (write_le32 0) = (OS', offset)"
    by (cases "generator_Emit e entries (write_le32 0)")
  define bytes where "bytes = write_le32 offset @ drop 4 OS'"
  from assms(1,4) have "case generator_Emit e entries (write_le32 0) of
      (OS', offset) \<Rightarrow>
        4 \<le> length OS'
        \<and> (\<forall>key. table_find e (write_le32 offset @ drop 4 OS') offset key
               = (case map_of entries key of Some data \<Rightarrow> data | None \<Rightarrow> []))"
    unfolding index_contract_def by (elim allE impE) assumption
  then have len: "4 \<le> length OS'"
    and find: "\<And>key. table_find e bytes offset key
        = (case map_of entries key of Some data \<Rightarrow> data | None \<Rightarrow> [])"
    unfolding bytes_def em by simp_all
  have emitted: "emit e (insert_all entries) dbFile = Inr (False, Some bytes)"
    using assms(2,3) em by (simp add: emit_def generator_insert_all bytes_def)
  have long: "\<not> length bytes < 4" by (simp add: bytes_def length_write_le32)
  have off: "read_le32 bytes = offset" unfolding bytes_def by (rule read_le32_write_le32)
  have init: "initializeIfNeeded e (SerializedLocalizationProducer bytes printNames)
          = Inr \<lparr>state = Initialized, printDiagnosticNames = printNames,
                 backend = Serialized bytes (Some offset)\<rparr>"
    using long off by (simp add: initializeIfNeeded_def SerializedLocalizationProducer_def)
  have get: "getMessage e (Serialized bytes (Some offset)) ident = Inr translation"
    if "(ident, translation) \<in> set entries" for ident translation
  proof -
    from that assms(4) have "map_of entries ident = Some translation" by simp
    then show ?thesis using find [of ident] by simp
  qed
  show ?thesis
  proof (intro exI conjI ballI)
    show "emit e (insert_all entries) dbFile = Inr (False, Some bytes)" by (rule emitted)
    show "initializeIfNeeded e (SerializedLocalizationProducer bytes printNames)
          = Inr \<lparr>state = Initialized, printDiagnosticNames = printNames,
                 backend = Serialized bytes (Some offset)\<rparr>" by (rule init)
    fix entry assume mem: "entry \<in> set entries"
    obtain ident translation where entry: "entry = (ident, translation)" by (cases entry)
    with mem have "(ident, translation) \<in> set entries" by simp
    then have "getMessage e (Serialized bytes (Some offset)) ident = Inr translation"
      by (rule get)
    then show "case entry of (ident, text) \<Rightarrow>
        getMessage e (Serialized bytes (Some offset)) ident = Inr text"
      unfolding entry by simp
  qed
qed

lemma ja_emit:
  "emit demo_env (insert_all [(0, ''Hai''), (1, []), (2, ''Iie'')]) ''loc/ja.db''
     = Inr (False, Some ja_db)"
  by (simp add: emit_def demo_env_def generator_insert_all length_write_le32 ja_db_def)

lemma ja_initialize:
  "initializeIfNeeded demo_env (SerializedLocalizationProducer ja_db True)
     = Inr \<lparr>state = Initialized, printDiagnosticNames = True,
            backend = Serialized ja_db (Some 4)\<rparr>"
proof -
  have "read_le32 ja_db = 4" unfolding ja_db_def by (rule read_le32_write_le32)
  moreover have "\<not> length ja_db < 4" by (simp add: ja_db_def length_write_le32)
  ultimately show ?thesis
    by (simp add: initializeIfNeeded_def SerializedLocalizationProducer_def)
qed

theorem serialized_round_trip_witness:
  "index_contract demo_env
   \<and> path_extension demo_env ''loc/ja.db'' = ''.db''
   \<and> writable demo_env ''loc/ja.db''
   \<and> catalog_entries [''Hai'', [], ''Iie''] = [(0, ''Hai''), (1, []), (2, ''Iie'')]
   \<and> distinct (map fst (catalog_entries [''Hai'', [], ''Iie'']))
   \<and> emit demo_env (insert_all (catalog_entries [''Hai'', [], ''Iie''])) ''loc/ja.db''
       = Inr (False, Some ja_db)
   \<and> initializeIfNeeded demo_env (SerializedLocalizationProducer ja_db True)
       = Inr \<lparr>state = Initialized, printDiagnosticNames = True,
              backend = Serialized ja_db (Some 4)\<rparr>
   \<and> getMessage demo_env (Serialized ja_db (Some 4)) 0 = Inr ''Hai''
   \<and> getMessage demo_env (Serialized ja_db (Some 4)) 1 = Inr []
   \<and> getMessage demo_env (Serialized ja_db (Some 4)) 2 = Inr ''Iie''"
proof -
  have ext: "path_extension demo_env ''loc/ja.db'' = ''.db''"
    and wr: "writable demo_env ''loc/ja.db''"
    by (simp_all add: demo_env_def)
  have entries: "catalog_entries [''Hai'', [], ''Iie''] = [(0, ''Hai''), (1, []), (2, ''Iie'')]"
    by (simp add: catalog_entries_def upt_rec [of 0] upt_rec [of 1] upt_rec [of 2])
  have dist: "distinct (map fst (catalog_entries [''Hai'', [], ''Iie'']))"
    unfolding entries by simp
  have em: "emit demo_env (insert_all (catalog_entries [''Hai'', [], ''Iie''])) ''loc/ja.db''
       = Inr (False, Some ja_db)"
    unfolding entries by (rule ja_emit)
  from serialized_round_trip [OF demo_index_contract ext wr dist, of True]
  obtain bytes offset where
    1: "emit demo_env (insert_all (catalog_entries [''Hai'', [], ''Iie''])) ''loc/ja.db''
          = Inr (False, Some bytes)"
    and 2: "initializeIfNeeded demo_env (SerializedLocalizationProducer bytes True)
          = Inr \<lparr>state = Initialized, printDiagnosticNames = True,
                 backend = Serialized bytes (Some offset)\<rparr>"
    and 3: "\<forall>(ident, text) \<in> set (catalog_entries [''Hai'', [], ''Iie'']).
            getMessage demo_env (Serialized bytes (Some offset)) ident = Inr text"
    by blast
  from 1 em have bytes: "bytes = ja_db" by simp
  from 2 ja_initialize have offset: "offset = 4" unfolding bytes by simp
  from 3 have got: "getMessage demo_env (Serialized ja_db (Some 4)) 0 = Inr ''Hai''"
    "getMessage demo_env (Serialized ja_db (Some 4)) 1 = Inr []"
    "getMessage demo_env (Serialized ja_db (Some 4)) 2 = Inr ''Iie''"
    unfolding bytes offset entries by simp_all
  show ?thesis
    apply (intro conjI)
    apply (rule demo_index_contract ext wr entries dist em ja_initialize got)+
    done
qed

subsection \<open>What initialization returns\<close>





end
